theory Spec2Isabelle
  imports Main
begin

section \<open>JavaScript values and strings\<close>

text \<open>
  The request body of \<^verbatim>\<open>POST /api/messages\<close> is a parsed JSON object. A property that
  is missing reads as \<^verbatim>\<open>undefined\<close>, which the model writes \<open>None\<close>.
  A string is a list of code units; the model keeps the code units below 256.
  A number is kept as an integer: the code reads of a number only whether it is zero
  and that it is not a string.
\<close>

datatype json =
    JNull
  | JBool bool
  | JNum int
  | JStr string
  | JArr "json list"
  | JObj "(string \<times> json) list"

text \<open>JavaScript's truthiness of a property value, as \<^verbatim>\<open>!x\<close> and \<^verbatim>\<open>if (x)\<close> read it.\<close>

fun truthy :: "json option \<Rightarrow> bool" where
  "truthy None = False"
| "truthy (Some JNull) = False"
| "truthy (Some (JBool b)) = b"
| "truthy (Some (JNum n)) = (n \<noteq> 0)"
| "truthy (Some (JStr s)) = (s \<noteq> [])"
| "truthy (Some (JArr xs)) = True"
| "truthy (Some (JObj kvs)) = True"

text \<open>The same for a value that is a string or \<^verbatim>\<open>undefined\<close>.\<close>

fun truthy_str :: "string option \<Rightarrow> bool" where
  "truthy_str None = False"
| "truthy_str (Some s) = (s \<noteq> [])"

text \<open>\<^verbatim>\<open>a || b\<close> on such values.\<close>

definition js_or :: "string option \<Rightarrow> string option \<Rightarrow> string option" where
  "js_or a b = (if truthy_str a then a else b)"

text \<open>
  \<^verbatim>\<open>toUpperCase\<close> and \<^verbatim>\<open>toLowerCase\<close> on the ASCII letters. Of the other code
  units below 256 none is mapped to an ASCII letter other than \<open>S\<close> (from \<open>0xDF\<close>), and no
  consistency token holds an \<open>S\<close>, so membership in \<open>ALLOWED_CONSISTENCIES\<close> is decided as
  JavaScript decides it.
\<close>

definition toUpperCase_char :: "char \<Rightarrow> char" where
  "toUpperCase_char c =
     (case map_of (zip ''abcdefghijklmnopqrstuvwxyz'' ''ABCDEFGHIJKLMNOPQRSTUVWXYZ'') c of
        Some u \<Rightarrow> u
      | None \<Rightarrow> c)"

definition toLowerCase_char :: "char \<Rightarrow> char" where
  "toLowerCase_char c =
     (case map_of (zip ''ABCDEFGHIJKLMNOPQRSTUVWXYZ'' ''abcdefghijklmnopqrstuvwxyz'') c of
        Some l \<Rightarrow> l
      | None \<Rightarrow> c)"

definition toUpperCase :: "string \<Rightarrow> string" where
  "toUpperCase s = map toUpperCase_char s"

definition toLowerCase :: "string \<Rightarrow> string" where
  "toLowerCase s = map toLowerCase_char s"

text \<open>
  White space and line terminators among the code units below 256: TAB, LF, VT, FF, CR,
  SPACE and NBSP. \<^verbatim>\<open>String.prototype.trim\<close> strips them at both ends.
\<close>

definition isWhitespace :: "char \<Rightarrow> bool" where
  "isWhitespace c =
     (c \<in> set [CHR 0x09, CHR 0x0A, CHR 0x0B, CHR 0x0C, CHR 0x0D, CHR 0x20, CHR 0xA0])"

definition trim :: "string \<Rightarrow> string" where
  "trim s = rev (dropWhile isWhitespace (rev (dropWhile isWhitespace s)))"

text \<open>
  \<^verbatim>\<open>parseInt(s)\<close> with no radix: leading white space is skipped, a sign is read, a
  prefix \<^verbatim>\<open>0x\<close> or \<^verbatim>\<open>0X\<close> selects radix 16, and the longest prefix of digits of the
  radix is the value; whatever follows is ignored. With no digit the result is
  \<^verbatim>\<open>NaN\<close>, here \<open>None\<close>.
\<close>

definition digit_val :: "char \<Rightarrow> nat option" where
  "digit_val c =
     map_of (zip ''0123456789abcdef'' [0..<16] @ zip ''ABCDEF'' [10..<16]) c"

definition is_digit :: "nat \<Rightarrow> char \<Rightarrow> bool" where
  "is_digit radix c = (case digit_val c of Some d \<Rightarrow> d < radix | None \<Rightarrow> False)"

definition digits_val :: "nat \<Rightarrow> string \<Rightarrow> nat" where
  "digits_val radix ds = foldl (\<lambda>acc c. acc * radix + the (digit_val c)) 0 ds"

definition parseInt :: "string \<Rightarrow> int option" where
  "parseInt s =
     (let s1 = dropWhile isWhitespace s;
          sgn = (case s1 of c # r \<Rightarrow> if c = CHR ''-'' then - 1 else 1 | [] \<Rightarrow> (1::int));
          s2 = (case s1 of c # r \<Rightarrow> if c = CHR ''-'' \<or> c = CHR ''+'' then r else s1 | [] \<Rightarrow> s1);
          hex = (case s2 of a # b # r \<Rightarrow> a = CHR ''0'' \<and> (b = CHR ''x'' \<or> b = CHR ''X'') | _ \<Rightarrow> False);
          radix = (if hex then 16 else 10);
          s3 = (if hex then drop 2 s2 else s2);
          ds = takeWhile (is_digit radix) s3
      in if ds = [] then None else Some (sgn * int (digits_val radix ds)))"

text \<open>
  The pattern of \<open>validateGetMessages\<close>,
  \<^verbatim>\<open>/^[0-9a-f]{8}-[0-9a-f]{4}-[1-5][0-9a-f]{3}-[89ab][0-9a-f]{3}-[0-9a-f]{12}$/i\<close>,
  as a test on the whole string.
\<close>

definition is_hex :: "char \<Rightarrow> bool" where
  "is_hex c = (c \<in> set ''0123456789abcdefABCDEF'')"

definition uuidRegex :: "string \<Rightarrow> bool" where
  "uuidRegex s =
     (length s = 36 \<and>
      list_all is_hex (take 8 s) \<and> s ! 8 = CHR ''-'' \<and>
      list_all is_hex (take 4 (drop 9 s)) \<and> s ! 13 = CHR ''-'' \<and>
      s ! 14 \<in> set ''12345'' \<and> list_all is_hex (take 3 (drop 15 s)) \<and> s ! 18 = CHR ''-'' \<and>
      s ! 19 \<in> set ''89abAB'' \<and> list_all is_hex (take 3 (drop 20 s)) \<and> s ! 23 = CHR ''-'' \<and>
      list_all is_hex (drop 24 s))"

section \<open>Process environment and the driver\<close>

text \<open>The environment variables the code reads; an unset variable is \<open>None\<close>.\<close>

record env =
  DEFAULT_WRITE_CONSISTENCY :: "string option"
  DEFAULT_READ_CONSISTENCY :: "string option"
  USE_SOFT_ERRORS :: "string option"

text \<open>
  The code imports \<^verbatim>\<open>cassandra-driver\<close>, which is not part of the repository. What it
  uses of the driver is a parameter of the model: the table \<^verbatim>\<open>types.consistencies\<close>
  (a lookup by property name that gives a numeric level, or \<^verbatim>\<open>undefined\<close>), the string
  form of a \<^verbatim>\<open>TimeUuid\<close> and its parser (which throws on a string it cannot read), and
  \<^verbatim>\<open>TimeUuid.getDate\<close>. \<^verbatim>\<open>Date.prototype.toISOString\<close> is taken the same way.
  A date is its number of milliseconds. The type \<open>'id\<close> is the type of time UUIDs, with the
  order the store sorts them by.
\<close>

record 'id runtime =
  consistencies :: "string \<Rightarrow> nat option"
  uuid_toString :: "'id \<Rightarrow> string"
  uuid_fromString :: "string \<Rightarrow> 'id option"
  getDate :: "'id \<Rightarrow> int"
  toISOString :: "int \<Rightarrow> string"

text \<open>
  The table as the driver exports it: the keys are in camel case, the levels are the
  protocol's codes.
\<close>

definition driver_consistencies :: "string \<Rightarrow> nat option" where
  "driver_consistencies =
     map_of [(''any'', 0), (''one'', 1), (''two'', 2), (''three'', 3), (''quorum'', 4),
             (''all'', 5), (''localQuorum'', 6), (''eachQuorum'', 7), (''serial'', 8),
             (''localSerial'', 9), (''localOne'', 10)]"

section \<open>validators\<close>

definition ALLOWED_CONSISTENCIES :: "string list" where
  "ALLOWED_CONSISTENCIES =
     [''ANY'', ''ONE'', ''TWO'', ''THREE'', ''QUORUM'', ''ALL'', ''LOCAL_ONE'', ''LOCAL_QUORUM'']"

text \<open>The result of \<open>validateConsistency\<close>: \<^verbatim>\<open>{ value, warning? }\<close>.\<close>

record consistency_result =
  level :: "nat option"
  warning :: "string option"

text \<open>\<^verbatim>\<open>process.env.X || d\<close> for a string \<open>d\<close>.\<close>

definition env_or :: "string option \<Rightarrow> string \<Rightarrow> string" where
  "env_or x d = (case x of None \<Rightarrow> d | Some s \<Rightarrow> if s = [] then d else s)"

definition invalid_consistency_warning :: "string \<Rightarrow> string \<Rightarrow> string" where
  "invalid_consistency_warning consistency defaultConsistency =
     ''Invalid consistency level '' @ [CHR 0x27] @ consistency @ [CHR 0x27]
       @ '', using default '' @ [CHR 0x27] @ defaultConsistency @ [CHR 0x27]"

definition validateConsistency ::
  "(string \<Rightarrow> nat option) \<Rightarrow> env \<Rightarrow> string option \<Rightarrow> consistency_result" where
  "validateConsistency table e consistency =
     (let defaultConsistency = env_or (DEFAULT_WRITE_CONSISTENCY e) ''ONE''
      in case consistency of
           None \<Rightarrow> \<lparr>level = table (toLowerCase defaultConsistency), warning = None\<rparr>
         | Some c \<Rightarrow>
             if c = []
             then \<lparr>level = table (toLowerCase defaultConsistency), warning = None\<rparr>
             else if toUpperCase c \<notin> set ALLOWED_CONSISTENCIES
             then \<lparr>level = table (toLowerCase defaultConsistency),
                   warning = Some (invalid_consistency_warning c defaultConsistency)\<rparr>
             else \<lparr>level = table (toLowerCase c), warning = None\<rparr>)"

text \<open>
  A validation result is \<^verbatim>\<open>{ valid: false, errors }\<close> or
  \<^verbatim>\<open>{ valid: true, errors: [], data }\<close>.
\<close>

datatype 'a validation = Invalid "string list" | Valid 'a

text \<open>The exceptions the code can meet.\<close>

datatype js_error = TypeError | NotInitialized | StorageError

text \<open>
  \<open>validatePostMessage\<close>. The body is an object: a map from property names to values.
  The checks read the fields as they arrive; the data returned holds the trimmed
  strings. \<^verbatim>\<open>x?.trim()\<close> is \<^verbatim>\<open>undefined\<close> for \<^verbatim>\<open>undefined\<close> and \<^verbatim>\<open>null\<close>, and throws
  for a value that is not a string.
\<close>

record post_data =
  d_channel_id :: string
  d_user_id :: string
  d_content :: string
  d_consistency :: "string option"
  d_client_msg_id :: "string option"

fun is_string :: "json option \<Rightarrow> bool" where
  "is_string (Some (JStr s)) = True"
| "is_string v = False"

fun js_length :: "json option \<Rightarrow> nat" where
  "js_length (Some (JStr s)) = length s"
| "js_length (Some (JArr xs)) = length xs"
| "js_length v = 0"

fun js_trim :: "json option \<Rightarrow> js_error + string" where
  "js_trim (Some (JStr s)) = Inr (trim s)"
| "js_trim v = Inl TypeError"

fun opt_trim :: "json option \<Rightarrow> js_error + string option" where
  "opt_trim None = Inr None"
| "opt_trim (Some JNull) = Inr None"
| "opt_trim (Some (JStr s)) = Inr (Some (trim s))"
| "opt_trim (Some v) = Inl TypeError"

text \<open>An exception ends the evaluation of the expressions that follow it.\<close>

definition bind_err :: "js_error + 'a \<Rightarrow> ('a \<Rightarrow> js_error + 'b) \<Rightarrow> js_error + 'b" where
  "bind_err m f = (case m of Inl x \<Rightarrow> Inl x | Inr a \<Rightarrow> f a)"

definition post_errors :: "(string \<Rightarrow> json option) \<Rightarrow> string list" where
  "post_errors body =
     (if \<not> truthy (body ''channel_id'') \<or> \<not> is_string (body ''channel_id'')
      then [''channel_id is required and must be a string'']
      else if js_length (body ''channel_id'') < 1 \<or> js_length (body ''channel_id'') > 100
      then [''channel_id must be between 1 and 100 characters'']
      else [])
     @ (if \<not> truthy (body ''user_id'') \<or> \<not> is_string (body ''user_id'')
        then [''user_id is required and must be a string'']
        else if js_length (body ''user_id'') < 1 \<or> js_length (body ''user_id'') > 100
        then [''user_id must be between 1 and 100 characters'']
        else [])
     @ (if \<not> truthy (body ''content'') \<or> \<not> is_string (body ''content'')
        then [''content is required and must be a string'']
        else if js_length (body ''content'') < 1 \<or> js_length (body ''content'') > 2000
        then [''content must be between 1 and 2000 characters'']
        else [])
     @ (if truthy (body ''client_msg_id'') \<and>
           (\<not> is_string (body ''client_msg_id'') \<or> js_length (body ''client_msg_id'') < 1
            \<or> js_length (body ''client_msg_id'') > 100)
        then [''client_msg_id must be a string between 1 and 100 characters'']
        else [])"

definition validatePostMessage ::
  "(string \<Rightarrow> json option) \<Rightarrow> js_error + post_data validation" where
  "validatePostMessage body =
     (let errors = post_errors body
      in if length errors > 0 then Inr (Invalid errors)
         else
           bind_err (js_trim (body ''channel_id'')) (\<lambda>channel.
           bind_err (js_trim (body ''user_id'')) (\<lambda>user.
           bind_err (js_trim (body ''content'')) (\<lambda>cont.
           bind_err (opt_trim (body ''consistency'')) (\<lambda>cons.
           bind_err (opt_trim (body ''client_msg_id'')) (\<lambda>key.
             Inr (Valid \<lparr>d_channel_id = channel, d_user_id = user, d_content = cont,
                         d_consistency = cons, d_client_msg_id = key\<rparr>)))))))"

text \<open>\<open>validateGetMessages\<close>. The query parameters are strings or absent.\<close>

record query =
  q_limit :: "string option"
  q_before :: "string option"
  q_after :: "string option"
  q_consistency :: "string option"

record get_data =
  g_limit :: int
  g_before :: "string option"
  g_after :: "string option"
  g_consistency :: "string option"

definition query_limit :: "query \<Rightarrow> int option" where
  "query_limit q =
     (case q_limit q of
        None \<Rightarrow> Some 20
      | Some l \<Rightarrow> if l = [] then Some 20 else parseInt l)"

definition limit_rejected :: "int option \<Rightarrow> bool" where
  "limit_rejected l = (case l of None \<Rightarrow> True | Some n \<Rightarrow> n < 1 \<or> n > 100)"

fun regex_rejects :: "string option \<Rightarrow> bool" where
  "regex_rejects None = False"
| "regex_rejects (Some s) = (s \<noteq> [] \<and> \<not> uuidRegex s)"

definition get_errors :: "query \<Rightarrow> string list" where
  "get_errors q =
     (if limit_rejected (query_limit q)
      then [''limit must be a number between 1 and 100''] else [])
     @ (if truthy_str (q_before q) \<and> truthy_str (q_after q)
        then [''Cannot use both before and after parameters simultaneously''] else [])
     @ (if regex_rejects (q_before q)
        then [''before parameter must be a valid UUID''] else [])
     @ (if regex_rejects (q_after q)
        then [''after parameter must be a valid UUID''] else [])"

definition validateGetMessages :: "query \<Rightarrow> get_data validation" where
  "validateGetMessages q =
     (let errors = get_errors q
      in if length errors > 0 then Invalid errors
         else case query_limit q of
                None \<Rightarrow> Invalid errors
              | Some n \<Rightarrow>
                  Valid \<lparr>g_limit = n, g_before = q_before q, g_after = q_after q,
                         g_consistency = q_consistency q\<rparr>)"

section \<open>db\<close>

text \<open>
  The store is the database the code talks to through \<^verbatim>\<open>client.execute\<close>. Its two
  tables follow the schema of the README:
  \<^verbatim>\<open>messages\<close> has the primary key \<^verbatim>\<open>((channel_id), message_id)\<close> and the clustering
  order \<^verbatim>\<open>message_id DESC\<close>; \<^verbatim>\<open>message_dedupe\<close> has the primary key
  \<^verbatim>\<open>((channel_id), client_msg_id)\<close>.
\<close>

record 'id row =
  channel_id :: string
  message_id :: 'id
  user_id :: string
  content :: string
  created_at :: int

text \<open>The \<^verbatim>\<open>WHERE\<close> clause on \<^verbatim>\<open>message_id\<close> of the three queries of \<open>getMessages\<close>.\<close>

datatype 'id cursor = NoCursor | Before 'id | After 'id

text \<open>A statement handed to \<^verbatim>\<open>client.execute\<close>, with the consistency option.\<close>

datatype 'id stmt =
    InsertMessage "'id row" "nat option"
  | InsertDedupe string string "nat option"
  | SelectMessages string "'id cursor" int "nat option"

text \<open>
  The state: whether \<^verbatim>\<open>client\<close> is set, the two tables, and the statements handed to
  \<^verbatim>\<open>client.execute\<close> so far. A call of \<^verbatim>\<open>client.execute\<close> can reject (the replicas
  the level needs are not there): \<open>fails st k\<close> says that the call number \<open>k\<close> does.
\<close>

record 'id db =
  client :: bool
  fails :: "nat \<Rightarrow> bool"
  executed :: "'id stmt list"
  messages :: "'id row list"
  message_dedupe :: "(string \<times> string) list"

definition record_call :: "'id stmt \<Rightarrow> 'id db \<Rightarrow> 'id db" where
  "record_call q st = st\<lparr>executed := executed st @ [q]\<rparr>"

definition rejects :: "'id db \<Rightarrow> bool" where
  "rejects st = fails st (length (executed st))"

text \<open>\<^verbatim>\<open>INSERT INTO messages\<close> writes the row of its primary key.\<close>

definition same_key :: "'id row \<Rightarrow> 'id row \<Rightarrow> bool" where
  "same_key a b = (channel_id a = channel_id b \<and> message_id a = message_id b)"

definition upsert :: "'id row \<Rightarrow> 'id row list \<Rightarrow> 'id row list" where
  "upsert r rows = r # filter (\<lambda>x. \<not> same_key r x) rows"

definition insertMessage ::
  "'id db \<Rightarrow> string \<Rightarrow> 'id \<Rightarrow> string \<Rightarrow> string \<Rightarrow> int \<Rightarrow> nat option
     \<Rightarrow> (js_error + unit) \<times> 'id db" where
  "insertMessage st channelId messageId userId text createdAt lvl =
     (if \<not> client st then (Inl NotInitialized, st)
      else
        let r = \<lparr>channel_id = channelId, message_id = messageId, user_id = userId,
                 content = text, created_at = createdAt\<rparr>;
            st1 = record_call (InsertMessage r lvl) st
        in if rejects st then (Inl StorageError, st1)
           else (Inr (), st1\<lparr>messages := upsert r (messages st1)\<rparr>))"

text \<open>
  \<^verbatim>\<open>INSERT INTO message_dedupe ... IF NOT EXISTS\<close>: the result's \<^verbatim>\<open>[applied]\<close> says
  whether the pair was new.
\<close>

definition checkDedupe ::
  "'id db \<Rightarrow> string \<Rightarrow> string \<Rightarrow> nat option \<Rightarrow> (js_error + bool) \<times> 'id db" where
  "checkDedupe st channelId clientMsgId lvl =
     (if \<not> client st then (Inl NotInitialized, st)
      else
        let st1 = record_call (InsertDedupe channelId clientMsgId lvl) st
        in if rejects st then (Inl StorageError, st1)
           else if (channelId, clientMsgId) \<in> set (message_dedupe st1) then (Inr False, st1)
           else (Inr True,
                 st1\<lparr>message_dedupe := (channelId, clientMsgId) # message_dedupe st1\<rparr>))"

text \<open>
  A \<^verbatim>\<open>SELECT\<close> on one partition gives its rows in clustering order, here
  \<^verbatim>\<open>message_id\<close> descending, and \<^verbatim>\<open>LIMIT\<close> keeps the first ones.
\<close>

fun in_cursor :: "('id::linorder) cursor \<Rightarrow> 'id \<Rightarrow> bool" where
  "in_cursor NoCursor x = True"
| "in_cursor (Before b) x = (x < b)"
| "in_cursor (After a) x = (x > a)"

definition desc :: "('id::linorder) row list \<Rightarrow> 'id row list" where
  "desc rows = rev (sort_key message_id rows)"

definition select_messages ::
  "('id::linorder) row list \<Rightarrow> string \<Rightarrow> 'id cursor \<Rightarrow> int \<Rightarrow> 'id row list" where
  "select_messages rows channelId cur lim =
     take (nat lim)
       (desc (filter (\<lambda>r. channel_id r = channelId \<and> in_cursor cur (message_id r)) rows))"

text \<open>
  \<open>getMessages\<close>: \<^verbatim>\<open>before\<close> is looked at first, \<^verbatim>\<open>after\<close> only when \<^verbatim>\<open>before\<close> is
  not given. The consistency defaults to \<^verbatim>\<open>types.consistencies.one\<close> when it is
  \<^verbatim>\<open>undefined\<close>.
\<close>

definition get_cursor ::
  "'id runtime \<Rightarrow> string option \<Rightarrow> string option \<Rightarrow> js_error + 'id cursor" where
  "get_cursor rt bef aft =
     (if truthy_str bef
      then (case bef of Some b \<Rightarrow>
              (case uuid_fromString rt b of Some x \<Rightarrow> Inr (Before x) | None \<Rightarrow> Inl TypeError)
            | None \<Rightarrow> Inr NoCursor)
      else if truthy_str aft
      then (case aft of Some a \<Rightarrow>
              (case uuid_fromString rt a of Some x \<Rightarrow> Inr (After x) | None \<Rightarrow> Inl TypeError)
            | None \<Rightarrow> Inr NoCursor)
      else Inr NoCursor)"

definition getMessages ::
  "('id::linorder) runtime \<Rightarrow> 'id db \<Rightarrow> string \<Rightarrow> int \<Rightarrow> string option \<Rightarrow> string option
     \<Rightarrow> nat option \<Rightarrow> (js_error + 'id row list) \<times> 'id db" where
  "getMessages rt st channelId lim bef aft lvl =
     (let lvl1 = (case lvl of None \<Rightarrow> consistencies rt ''one'' | Some l \<Rightarrow> Some l)
      in if \<not> client st then (Inl NotInitialized, st)
         else case get_cursor rt bef aft of
                Inl x \<Rightarrow> (Inl x, st)
              | Inr cur \<Rightarrow>
                  let st1 = record_call (SelectMessages channelId cur lim lvl1) st
                  in if rejects st then (Inl StorageError, st1)
                     else (Inr (select_messages (messages st1) channelId cur lim), st1))"

section \<open>index\<close>

text \<open>What a handler sends: the status and the JSON body.\<close>

record reply =
  status :: nat
  body :: json

definition soft :: "env \<Rightarrow> bool" where
  "soft e = (USE_SOFT_ERRORS e = Some ''true'')"

definition errorResponse :: "string \<Rightarrow> string \<Rightarrow> json option \<Rightarrow> json" where
  "errorResponse code msg details =
     JObj [(''ok'', JBool False),
           (''error'', JObj ([(''code'', JStr code), (''message'', JStr msg)]
               @ (case details of None \<Rightarrow> [] | Some d \<Rightarrow> [(''details'', d)])))]"

definition bad_request :: "env \<Rightarrow> string \<Rightarrow> string list option \<Rightarrow> reply" where
  "bad_request e msg errors =
     \<lparr>status = (if soft e then 200 else 400),
      body = errorResponse ''BAD_REQUEST'' msg
        (case errors of None \<Rightarrow> None
         | Some es \<Rightarrow> Some (JObj [(''errors'', JArr (map JStr es))]))\<rparr>"

definition internal :: "env \<Rightarrow> string \<Rightarrow> reply" where
  "internal e msg =
     \<lparr>status = (if soft e then 200 else 500), body = errorResponse ''INTERNAL'' msg None\<rparr>"

text \<open>\<^verbatim>\<open>if (consistencyResult.warning) response.warning = ...\<close>\<close>

definition warning_field :: "consistency_result \<Rightarrow> (string \<times> json) list" where
  "warning_field cr =
     (case warning cr of
        None \<Rightarrow> []
      | Some w \<Rightarrow> if w = [] then [] else [(''warning'', JStr w)])"

subsection \<open>POST /api/messages\<close>

text \<open>
  The identifier that \<open>nowId\<close> returns comes from the driver's \<^verbatim>\<open>TimeUuid.now()\<close>;
  the handler takes it as the argument \<open>newId\<close>. \<open>toTimestamp\<close> is the driver's
  \<^verbatim>\<open>getDate\<close>.
\<close>

definition toTimestamp :: "'id runtime \<Rightarrow> 'id \<Rightarrow> int" where
  "toTimestamp rt messageId = getDate rt messageId"

text \<open>Lines 97 to 113: the insert and the response that carries the new id.\<close>

definition createMessage ::
  "'id runtime \<Rightarrow> env \<Rightarrow> 'id \<Rightarrow> 'id db \<Rightarrow> post_data \<Rightarrow> consistency_result
     \<Rightarrow> reply \<times> 'id db" where
  "createMessage rt e newId st d cr =
     (let messageId = newId;
          createdAt = toTimestamp rt messageId
      in case insertMessage st (d_channel_id d) messageId (d_user_id d) (d_content d)
                createdAt (level cr) of
           (Inl x, st1) \<Rightarrow> (internal e ''Failed to post message'', st1)
         | (Inr u, st1) \<Rightarrow>
             (\<lparr>status = 200,
               body = JObj ([(''ok'', JBool True),
                             (''message_id'', JStr (uuid_toString rt messageId))]
                            @ warning_field cr)\<rparr>, st1))"

text \<open>Lines 78 to 113: the handler once the body has passed validation.\<close>

definition appendMessage ::
  "'id runtime \<Rightarrow> env \<Rightarrow> 'id \<Rightarrow> 'id db \<Rightarrow> post_data \<Rightarrow> reply \<times> 'id db" where
  "appendMessage rt e newId st d =
     (let consistencyResult = validateConsistency (consistencies rt) e (d_consistency d);
          writeConsistency = level consistencyResult
      in case d_client_msg_id d of
           None \<Rightarrow> createMessage rt e newId st d consistencyResult
         | Some k \<Rightarrow>
             if k = [] then createMessage rt e newId st d consistencyResult
             else
               (case checkDedupe st (d_channel_id d) k writeConsistency of
                  (Inl x, st1) \<Rightarrow> (internal e ''Failed to post message'', st1)
                | (Inr isUnique, st1) \<Rightarrow>
                    if \<not> isUnique
                    then (\<lparr>status = 200,
                           body = JObj [(''ok'', JBool True), (''deduped'', JBool True)]\<rparr>, st1)
                    else createMessage rt e newId st1 d consistencyResult))"

definition postMessage ::
  "'id runtime \<Rightarrow> env \<Rightarrow> 'id \<Rightarrow> 'id db \<Rightarrow> (string \<Rightarrow> json option) \<Rightarrow> reply \<times> 'id db" where
  "postMessage rt e newId st reqBody =
     (case validatePostMessage reqBody of
        Inl x \<Rightarrow> (internal e ''Failed to post message'', st)
      | Inr (Invalid errors) \<Rightarrow> (bad_request e ''Invalid input'' (Some errors), st)
      | Inr (Valid d) \<Rightarrow> appendMessage rt e newId st d)"

subsection \<open>GET /api/channels/:channel_id/messages\<close>

definition message_json :: "'id runtime \<Rightarrow> 'id row \<Rightarrow> json" where
  "message_json rt r =
     JObj [(''channel_id'', JStr (channel_id r)),
           (''message_id'', JStr (uuid_toString rt (message_id r))),
           (''user_id'', JStr (user_id r)),
           (''content'', JStr (content r)),
           (''created_at'', JStr (toISOString rt (created_at r)))]"

definition next_before_json :: "json list \<Rightarrow> json" where
  "next_before_json items =
     (if length items > 0
      then (case last items of
              JObj props \<Rightarrow> (case map_of props ''message_id'' of Some v \<Rightarrow> v | None \<Rightarrow> JNull)
            | other \<Rightarrow> JNull)
      else JNull)"

text \<open>Lines 139 to 172: the handler once the query has passed validation.\<close>

definition listMessages ::
  "('id::linorder) runtime \<Rightarrow> env \<Rightarrow> 'id db \<Rightarrow> string \<Rightarrow> get_data \<Rightarrow> reply \<times> 'id db" where
  "listMessages rt e st channelId d =
     (let consistencyResult =
            validateConsistency (consistencies rt) e
              (js_or (g_consistency d) (DEFAULT_READ_CONSISTENCY e));
          readConsistency = level consistencyResult
      in case getMessages rt st channelId (g_limit d) (g_before d) (g_after d) readConsistency of
           (Inl x, st1) \<Rightarrow> (internal e ''Failed to get messages'', st1)
         | (Inr rows, st1) \<Rightarrow>
             let items = map (message_json rt) rows;
                 nextBefore = next_before_json items
             in (\<lparr>status = 200,
                  body = JObj ([(''ok'', JBool True),
                                (''items'', JArr items),
                                (''page'', JObj [(''next_before'', nextBefore)])]
                               @ warning_field consistencyResult)\<rparr>, st1))"

definition getMessagesHandler ::
  "('id::linorder) runtime \<Rightarrow> env \<Rightarrow> 'id db \<Rightarrow> string \<Rightarrow> query \<Rightarrow> reply \<times> 'id db" where
  "getMessagesHandler rt e st channelId q =
     (if channelId = [] \<or> length channelId < 1 \<or> length channelId > 100
      then (bad_request e ''Invalid channel_id'' None, st)
      else case validateGetMessages q of
             Invalid errors \<Rightarrow> (bad_request e ''Invalid query parameters'' (Some errors), st)
           | Valid d \<Rightarrow> listMessages rt e st channelId d)"

section \<open>The pagination protocol\<close>

text \<open>
  The caller's loop of the specification: the first request has no cursor, each later
  one passes the last response's \<^verbatim>\<open>page.next_before\<close> as \<^verbatim>\<open>before\<close>, and the loop
  ends at the first response whose \<^verbatim>\<open>next_before\<close> is not a string. The result is the
  list of the pages in fetch order. The loop runs on fuel: \<open>None\<close> says that the fuel did
  not suffice.
\<close>

fun response_items :: "json \<Rightarrow> json list" where
  "response_items (JObj props) =
     (case map_of props ''items'' of Some (JArr items) \<Rightarrow> items | other \<Rightarrow> [])"
| "response_items v = []"

fun response_next_before :: "json \<Rightarrow> string option" where
  "response_next_before (JObj props) =
     (case map_of props ''page'' of
        Some (JObj p) \<Rightarrow> (case map_of p ''next_before'' of Some (JStr s) \<Rightarrow> Some s | other \<Rightarrow> None)
      | other \<Rightarrow> None)"
| "response_next_before v = None"

text \<open>The \<^verbatim>\<open>message_id\<close> of an item of a page.\<close>

fun item_message_id :: "json \<Rightarrow> json option" where
  "item_message_id (JObj props) = map_of props ''message_id''"
| "item_message_id v = None"

fun paginate ::
  "nat \<Rightarrow> ('id::linorder) runtime \<Rightarrow> env \<Rightarrow> 'id db \<Rightarrow> string \<Rightarrow> int \<Rightarrow> string option
     \<Rightarrow> json list list option" where
  "paginate 0 rt e st channelId lim cur = None"
| "paginate (Suc n) rt e st channelId lim cur =
     (case listMessages rt e st channelId
             \<lparr>g_limit = lim, g_before = cur, g_after = None, g_consistency = None\<rparr> of
        (r, st1) \<Rightarrow>
          (case response_next_before (body r) of
             None \<Rightarrow> Some [response_items (body r)]
           | Some nb \<Rightarrow>
               map_option ((#) (response_items (body r)))
                 (paginate n rt e st1 channelId lim (Some nb))))"

text \<open>
  The reading of the specification's sentence on \<^verbatim>\<open>after\<close>: the entries above the
  cursor that are nearest to it, newest first.
\<close>

definition nearest_after ::
  "('id::linorder) row list \<Rightarrow> string \<Rightarrow> 'id \<Rightarrow> int \<Rightarrow> 'id row list" where
  "nearest_after rows channelId x lim =
     rev (take (nat lim)
       (sort_key message_id (filter (\<lambda>r. channel_id r = channelId \<and> message_id r > x) rows)))"

section \<open>Concrete inputs\<close>

text \<open>
  A runtime for the examples: identifiers are natural numbers below 16, written as the
  eighth digit of a version 1 UUID string; the consistency table is the driver's.
\<close>

definition example_runtime :: "nat runtime" where
  "example_runtime =
     \<lparr>consistencies = driver_consistencies,
      uuid_toString = (\<lambda>n. ''0000000'' @ [''0123456789abcdef'' ! n]
                          @ ''-0000-1000-8000-000000000000''),
      uuid_fromString = (\<lambda>s. if uuidRegex s then digit_val (s ! 7) else None),
      getDate = (\<lambda>n. int n * 1000),
      toISOString = (\<lambda>t. ''T+'' @ replicate (nat (t div 1000)) (CHR ''s''))\<rparr>"

text \<open>Writes default to \<^verbatim>\<open>ALL\<close>, reads to \<^verbatim>\<open>ONE\<close>.\<close>

definition example_env :: env where
  "example_env =
     \<lparr>DEFAULT_WRITE_CONSISTENCY = Some ''ALL'', DEFAULT_READ_CONSISTENCY = Some ''ONE'',
      USE_SOFT_ERRORS = None\<rparr>"

definition empty_store :: "nat db" where
  "empty_store =
     \<lparr>client = True, fails = (\<lambda>k. False), executed = [], messages = [], message_dedupe = []\<rparr>"

definition example_row :: "string \<Rightarrow> nat \<Rightarrow> nat row" where
  "example_row c n =
     \<lparr>channel_id = c, message_id = n, user_id = ''u'', content = ''m'',
      created_at = int n * 1000\<rparr>"

text \<open>Five messages in channel \<^verbatim>\<open>c\<close>, one in channel \<^verbatim>\<open>d\<close>; one key already claimed.\<close>

definition example_store :: "nat db" where
  "example_store =
     empty_store\<lparr>messages := [example_row ''c'' 3, example_row ''c'' 1, example_row ''d'' 7,
                              example_row ''c'' 5, example_row ''c'' 2, example_row ''c'' 4],
                  message_dedupe := [(''c'', ''k1'')]\<rparr>"

definition example_query :: query where
  "example_query = \<lparr>q_limit = None, q_before = None, q_after = None, q_consistency = None\<rparr>"

definition example_body :: "string \<Rightarrow> json option" where
  "example_body =
     [''channel_id'' \<mapsto> JStr ''c'', ''user_id'' \<mapsto> JStr ''u'', ''content'' \<mapsto> JStr ''hello'']"

section \<open>Theorems\<close>

subsection \<open>The consistency resolver\<close>

lemmas case_defs = toUpperCase_def toLowerCase_def toUpperCase_char_def toLowerCase_char_def

lemma validateConsistency_absent:
  "validateConsistency table e None =
     \<lparr>level = table (toLowerCase (env_or (DEFAULT_WRITE_CONSISTENCY e) ''ONE'')), warning = None\<rparr>"
  by (simp add: validateConsistency_def)

lemma validateConsistency_recognized:
  "toUpperCase tok \<in> set ALLOWED_CONSISTENCIES \<Longrightarrow> tok \<noteq> [] \<Longrightarrow>
   validateConsistency table e (Some tok) = \<lparr>level = table (toLowerCase tok), warning = None\<rparr>"
  by (simp add: validateConsistency_def Let_def)

lemma validateConsistency_unrecognized:
  "tok \<noteq> [] \<Longrightarrow> toUpperCase tok \<notin> set ALLOWED_CONSISTENCIES \<Longrightarrow>
   validateConsistency table e (Some tok) =
     \<lparr>level = table (toLowerCase (env_or (DEFAULT_WRITE_CONSISTENCY e) ''ONE'')),
      warning = Some (invalid_consistency_warning tok (env_or (DEFAULT_WRITE_CONSISTENCY e) ''ONE''))\<rparr>"
  by (simp add: validateConsistency_def Let_def)

lemma bogus_unrecognized: "toUpperCase ''BOGUS'' \<notin> set ALLOWED_CONSISTENCIES"
  by (simp add: ALLOWED_CONSISTENCIES_def case_defs)

lemma lower_upper_char: "toLowerCase_char (toUpperCase_char c) = toLowerCase_char c"
  by (simp add: toLowerCase_char_def toUpperCase_char_def)

lemma lower_upper: "toLowerCase (toUpperCase s) = toLowerCase s"
  by (simp add: toLowerCase_def toUpperCase_def lower_upper_char)

text \<open>The six tokens without an underscore are keys of the driver's table once lower-cased.\<close>

lemma validateConsistency_plain_tokens:
  assumes "toUpperCase tok \<in> set [''ANY'', ''ONE'', ''TWO'', ''THREE'', ''QUORUM'', ''ALL'']"
  shows "\<exists>l. validateConsistency driver_consistencies e (Some tok)
              = \<lparr>level = Some l, warning = None\<rparr>"
proof -
  have ne: "tok \<noteq> []" using assms by (auto simp: toUpperCase_def)
  have al: "toUpperCase tok \<in> set ALLOWED_CONSISTENCIES"
    using assms by (auto simp: ALLOWED_CONSISTENCIES_def)
  have "toLowerCase tok = toLowerCase (toUpperCase tok)" by (simp add: lower_upper)
  with assms have "toLowerCase tok \<in> set [''any'', ''one'', ''two'', ''three'', ''quorum'', ''all'']"
    by (auto simp: toLowerCase_def toLowerCase_char_def)
  then have "\<exists>l. driver_consistencies (toLowerCase tok) = Some l"
    by (auto simp: driver_consistencies_def)
  then show ?thesis
    by (simp add: validateConsistency_recognized[OF al ne])
qed

text \<open>
  C1. For every recognized token, in any letter case, \<open>validateConsistency\<close> gives no
  warning and looks the lower-cased token up in the driver's table. The lookup finds
  nothing for \<^verbatim>\<open>LOCAL_ONE\<close> and \<^verbatim>\<open>LOCAL_QUORUM\<close>: the table's keys are
  \<^verbatim>\<open>localOne\<close> and \<^verbatim>\<open>localQuorum\<close>, so the level returned for these two tokens is
  \<^verbatim>\<open>undefined\<close>.
\<close>

theorem validateConsistency_local_tokens_undefined:
  "validateConsistency driver_consistencies e (Some ''LOCAL_QUORUM'')
     = \<lparr>level = None, warning = None\<rparr>
   \<and> validateConsistency driver_consistencies e (Some ''LOCAL_ONE'')
     = \<lparr>level = None, warning = None\<rparr>
   \<and> validateConsistency driver_consistencies e (Some ''local_one'')
     = \<lparr>level = None, warning = None\<rparr>"
  by (simp add: validateConsistency_def ALLOWED_CONSISTENCIES_def case_defs
      driver_consistencies_def)

lemma example_default_level:
  "consistencies example_runtime (toLowerCase (env_or (DEFAULT_WRITE_CONSISTENCY example_env) ''ONE''))
   = Some 5"
  by (simp add: env_or_def example_env_def example_runtime_def driver_consistencies_def case_defs)

lemma example_bogus_level:
  "level (validateConsistency (consistencies example_runtime) example_env (Some ''BOGUS'')) = Some 5"
  by (simp add: validateConsistency_unrecognized[OF _ bogus_unrecognized] example_default_level)

text \<open>
  C6. A list request with an unrecognized token: with the write default \<^verbatim>\<open>ALL\<close> and
  the read default \<^verbatim>\<open>ONE\<close>, the query runs at level 5 (\<^verbatim>\<open>ALL\<close>) and the warning
  names \<^verbatim>\<open>ALL\<close> as the default; the read default (level 1) is not used.
\<close>

theorem read_fallback_is_write_default:
  "getMessagesHandler example_runtime example_env empty_store ''c''
     (example_query\<lparr>q_consistency := Some ''BOGUS''\<rparr>)
   = (\<lparr>status = 200,
       body = JObj [(''ok'', JBool True), (''items'', JArr []),
                    (''page'', JObj [(''next_before'', JNull)]),
                    (''warning'', JStr (''Invalid consistency level '' @ [CHR 0x27] @ ''BOGUS''
                       @ [CHR 0x27] @ '', using default '' @ [CHR 0x27] @ ''ALL''
                       @ [CHR 0x27]))]\<rparr>,
      empty_store\<lparr>executed := [SelectMessages ''c'' NoCursor 20 (driver_consistencies ''all'')]\<rparr>)
   \<and> driver_consistencies ''all'' = Some 5 \<and> driver_consistencies ''one'' = Some 1"
  by (simp add: getMessagesHandler_def validateGetMessages_def get_errors_def query_limit_def
      limit_rejected_def example_query_def listMessages_def js_or_def example_env_def
      validateConsistency_unrecognized[OF _ bogus_unrecognized] env_or_def
      getMessages_def get_cursor_def example_runtime_def empty_store_def record_call_def
      rejects_def select_messages_def desc_def next_before_json_def warning_field_def
      invalid_consistency_warning_def case_defs driver_consistencies_def)

subsection \<open>POST /api/messages\<close>

lemma checkDedupe_False:
  assumes "checkDedupe st c k lvl = (Inr False, st1)"
  shows "st1 = record_call (InsertDedupe c k lvl) st" and "(c, k) \<in> set (message_dedupe st)"
    and "client st"
  using assms by (auto simp: checkDedupe_def Let_def record_call_def split: if_splits)

lemma insertMessage_Inr:
  assumes "insertMessage st c i u t ts lvl = (Inr x, st1)"
  shows "messages st1 = upsert \<lparr>channel_id = c, message_id = i, user_id = u, content = t,
            created_at = ts\<rparr> (messages st)"
    and "message_dedupe st1 = message_dedupe st"
  using assms by (auto simp: insertMessage_def Let_def record_call_def split: if_splits)

lemma createMessage_body:
  assumes "createMessage rt e newId st d cr = (r, st')"
  shows "r = internal e ''Failed to post message'' \<or>
         r = \<lparr>status = 200,
              body = JObj ([(''ok'', JBool True), (''message_id'', JStr (uuid_toString rt newId))]
                           @ warning_field cr)\<rparr>"
  using assms
  by (auto simp: createMessage_def Let_def split: prod.splits sum.splits)

lemma createMessage_accepted:
  assumes "createMessage rt e newId st d cr = (r, st')" and "body r = JObj props"
      and "map_of props ''ok'' = Some (JBool True)"
  shows "r = \<lparr>status = 200,
              body = JObj ([(''ok'', JBool True), (''message_id'', JStr (uuid_toString rt newId))]
                           @ warning_field cr)\<rparr>"
    and "messages st' = upsert \<lparr>channel_id = d_channel_id d, message_id = newId,
            user_id = d_user_id d, content = d_content d, created_at = getDate rt newId\<rparr> (messages st)"
  using assms
  by (auto simp: createMessage_def Let_def internal_def errorResponse_def toTimestamp_def
      split: prod.splits sum.splits dest: insertMessage_Inr)

lemma appendMessage_body:
  assumes "appendMessage rt e newId st d = (r, st')"
  shows "r = internal e ''Failed to post message'' \<or>
         r = \<lparr>status = 200, body = JObj [(''ok'', JBool True), (''deduped'', JBool True)]\<rparr> \<or>
         r = \<lparr>status = 200,
              body = JObj ([(''ok'', JBool True), (''message_id'', JStr (uuid_toString rt newId))]
                @ warning_field (validateConsistency (consistencies rt) e (d_consistency d)))\<rparr>"
  using assms
  by (auto simp: appendMessage_def Let_def split: option.splits if_splits prod.splits sum.splits
      dest: createMessage_body)

lemma postMessage_body:
  assumes "postMessage rt e newId st reqBody = (r, st')"
  shows "(\<exists>c m dt. body r = errorResponse c m dt) \<or>
         body r = JObj [(''ok'', JBool True), (''deduped'', JBool True)] \<or>
         (\<exists>cr. body r = JObj ([(''ok'', JBool True), (''message_id'', JStr (uuid_toString rt newId))]
                @ warning_field cr))"
proof (cases "validatePostMessage reqBody")
  case (Inl x)
  with assms have "body r = errorResponse ''INTERNAL'' ''Failed to post message'' None"
    by (auto simp: postMessage_def internal_def)
  then show ?thesis by blast
next
  case (Inr v)
  show ?thesis
  proof (cases v)
    case (Invalid errors)
    with Inr assms have "body r = errorResponse ''BAD_REQUEST'' ''Invalid input''
        (Some (JObj [(''errors'', JArr (map JStr errors))]))"
      by (auto simp: postMessage_def bad_request_def)
    then show ?thesis by blast
  next
    case (Valid d)
    with Inr assms have "appendMessage rt e newId st d = (r, st')"
      by (simp add: postMessage_def)
    from appendMessage_body[OF this] show ?thesis
    proof (elim disjE)
      assume "r = internal e ''Failed to post message''"
      then have "body r = errorResponse ''INTERNAL'' ''Failed to post message'' None"
        by (simp add: internal_def)
      then show ?thesis by blast
    qed auto
  qed
qed

lemma example_body_valid:
  "validatePostMessage (example_body(''consistency'' \<mapsto> JStr ''BOGUS'', ''client_msg_id'' \<mapsto> JStr ''k1''))
   = Inr (Valid \<lparr>d_channel_id = ''c'', d_user_id = ''u'', d_content = ''hello'',
                  d_consistency = Some ''BOGUS'', d_client_msg_id = Some ''k1''\<rparr>)"
  by (simp add: validatePostMessage_def post_errors_def example_body_def bind_err_def trim_def
      isWhitespace_def)

lemma example_checkDedupe:
  "checkDedupe example_store ''c'' ''k1'' (Some 5)
   = (Inr False, example_store\<lparr>executed := [InsertDedupe ''c'' ''k1'' (Some 5)]\<rparr>)"
  by (simp add: checkDedupe_def example_store_def empty_store_def record_call_def rejects_def)

lemma example_duplicate_post:
  "postMessage example_runtime example_env 9 example_store
     (example_body(''consistency'' \<mapsto> JStr ''BOGUS'', ''client_msg_id'' \<mapsto> JStr ''k1''))
   = (\<lparr>status = 200, body = JObj [(''ok'', JBool True), (''deduped'', JBool True)]\<rparr>,
      example_store\<lparr>executed := [InsertDedupe ''c'' ''k1'' (Some 5)]\<rparr>)"
  by (simp add: postMessage_def example_body_valid appendMessage_def Let_def example_bogus_level
      example_checkDedupe)

text \<open>
  C10. A reply of \<open>postMessage\<close> that says \<^verbatim>\<open>deduped: true\<close> has no \<^verbatim>\<open>warning\<close>,
  whatever the consistency token was; a reply that has a \<^verbatim>\<open>warning\<close> carries the
  \<^verbatim>\<open>message_id\<close> of the new message.
\<close>

theorem deduplicated_reply_has_no_warning:
  assumes "postMessage rt e newId st reqBody = (r, st')"
      and "body r = JObj props"
  shows "(map_of props ''deduped'' = Some (JBool True) \<longrightarrow> map_of props ''warning'' = None)
       \<and> (map_of props ''warning'' \<noteq> None \<longrightarrow>
            map_of props ''message_id'' = Some (JStr (uuid_toString rt newId)))"
proof -
  from postMessage_body[OF assms(1)] consider
      (err) c m dt where "body r = errorResponse c m dt"
    | (dup) "body r = JObj [(''ok'', JBool True), (''deduped'', JBool True)]"
    | (acc) cr where "body r = JObj ([(''ok'', JBool True),
          (''message_id'', JStr (uuid_toString rt newId))] @ warning_field cr)"
    by blast
  then show ?thesis
  proof cases
    case err
    with assms(2) show ?thesis by (auto simp: errorResponse_def)
  next
    case dup
    with assms(2) show ?thesis by auto
  next
    case acc
    with assms(2) have "props = [(''ok'', JBool True),
          (''message_id'', JStr (uuid_toString rt newId))] @ warning_field cr" by simp
    then show ?thesis by (simp add: warning_field_def split: option.splits)
  qed
qed

theorem deduplicated_reply_has_no_warning_witness:
  "postMessage example_runtime example_env 9 example_store
     (example_body(''consistency'' \<mapsto> JStr ''BOGUS'', ''client_msg_id'' \<mapsto> JStr ''k1''))
   = (\<lparr>status = 200, body = JObj [(''ok'', JBool True), (''deduped'', JBool True)]\<rparr>,
      example_store\<lparr>executed := [InsertDedupe ''c'' ''k1'' (Some 5)]\<rparr>)
   \<and> map_of [(''ok'', JBool True), (''deduped'', JBool True)] ''deduped'' = Some (JBool True)
   \<and> map_of [(''ok'', JBool True), (''deduped'', JBool True)] ''warning'' = None"
  using deduplicated_reply_has_no_warning[OF example_duplicate_post,
      of "[(''ok'', JBool True), (''deduped'', JBool True)]"]
  by (simp add: example_duplicate_post)

text \<open>
  C3. When the body is valid, carries a client key and \<open>checkDedupe\<close> answers
  \<open>False\<close>, the handler replies \<^verbatim>\<open>{ok: true, deduped: true}\<close> and stops: the tables
  are as before, and the only statement executed is the conditional insert of the
  check itself.
\<close>

theorem deduplicated_request_writes_nothing:
  assumes "validatePostMessage reqBody = Inr (Valid d)"
      and "d_client_msg_id d = Some k" and "k \<noteq> []"
      and "checkDedupe st (d_channel_id d) k
             (level (validateConsistency (consistencies rt) e (d_consistency d))) = (Inr False, st1)"
  shows "postMessage rt e newId st reqBody =
           (\<lparr>status = 200, body = JObj [(''ok'', JBool True), (''deduped'', JBool True)]\<rparr>, st1)
       \<and> messages st1 = messages st
       \<and> message_dedupe st1 = message_dedupe st
       \<and> executed st1 = executed st @ [InsertDedupe (d_channel_id d) k
             (level (validateConsistency (consistencies rt) e (d_consistency d)))]"
proof -
  have "postMessage rt e newId st reqBody = appendMessage rt e newId st d"
    using assms(1) by (simp add: postMessage_def)
  moreover have "appendMessage rt e newId st d =
      (\<lparr>status = 200, body = JObj [(''ok'', JBool True), (''deduped'', JBool True)]\<rparr>, st1)"
    using assms(2-4) by (simp add: appendMessage_def Let_def)
  moreover note checkDedupe_False(1)[OF assms(4)]
  ultimately show ?thesis by (simp add: record_call_def)
qed

theorem deduplicated_request_writes_nothing_witness:
  "postMessage example_runtime example_env 9 example_store
     (example_body(''consistency'' \<mapsto> JStr ''BOGUS'', ''client_msg_id'' \<mapsto> JStr ''k1''))
   = (\<lparr>status = 200, body = JObj [(''ok'', JBool True), (''deduped'', JBool True)]\<rparr>,
      example_store\<lparr>executed := [InsertDedupe ''c'' ''k1'' (Some 5)]\<rparr>)
   \<and> messages (example_store\<lparr>executed := [InsertDedupe ''c'' ''k1'' (Some 5)]\<rparr>)
       = messages example_store"
  using deduplicated_request_writes_nothing[OF example_body_valid, of "''k1''" example_store
      example_runtime example_env "example_store\<lparr>executed := [InsertDedupe ''c'' ''k1'' (Some 5)]\<rparr>" 9]
  by (simp add: example_bogus_level example_checkDedupe)

lemma warning_field_lookup:
  "k \<noteq> ''warning'' \<Longrightarrow> map_of (warning_field cr) k = None"
  by (simp add: warning_field_def split: option.splits)

lemma appendMessage_accepted:
  assumes "appendMessage rt e newId st d = (r, st')" and "body r = JObj props"
      and "map_of props ''ok'' = Some (JBool True)" and "map_of props ''deduped'' = None"
  shows "r = \<lparr>status = 200,
              body = JObj ([(''ok'', JBool True), (''message_id'', JStr (uuid_toString rt newId))]
                @ warning_field (validateConsistency (consistencies rt) e (d_consistency d)))\<rparr>"
    and "\<lparr>channel_id = d_channel_id d, message_id = newId, user_id = d_user_id d,
          content = d_content d, created_at = getDate rt newId\<rparr> \<in> set (messages st')"
proof -
  let ?cr = "validateConsistency (consistencies rt) e (d_consistency d)"
  have "\<exists>st0. createMessage rt e newId st0 d ?cr = (r, st')"
    using assms
    by (auto simp: appendMessage_def Let_def internal_def errorResponse_def
        split: option.splits if_splits prod.splits sum.splits)
  then obtain st0 where c: "createMessage rt e newId st0 d ?cr = (r, st')" ..
  from createMessage_accepted[OF c assms(2,3)]
  show "r = \<lparr>status = 200,
              body = JObj ([(''ok'', JBool True), (''message_id'', JStr (uuid_toString rt newId))]
                @ warning_field ?cr)\<rparr>"
    and "\<lparr>channel_id = d_channel_id d, message_id = newId, user_id = d_user_id d,
          content = d_content d, created_at = getDate rt newId\<rparr> \<in> set (messages st')"
    by (simp_all add: upsert_def)
qed

lemma example_body_plain_valid:
  "validatePostMessage example_body
   = Inr (Valid \<lparr>d_channel_id = ''c'', d_user_id = ''u'', d_content = ''hello'',
                  d_consistency = None, d_client_msg_id = None\<rparr>)"
  by (simp add: validatePostMessage_def post_errors_def example_body_def bind_err_def trim_def
      isWhitespace_def)

lemma example_uuid_9:
  "uuid_toString example_runtime 9 = ''00000009-0000-1000-8000-000000000000''"
  by (simp add: example_runtime_def)

lemma example_accepted_post:
  "postMessage example_runtime example_env 9 empty_store example_body
   = (\<lparr>status = 200,
       body = JObj [(''ok'', JBool True),
                    (''message_id'', JStr ''00000009-0000-1000-8000-000000000000'')]\<rparr>,
      empty_store\<lparr>executed := [InsertMessage (example_row ''c'' 9\<lparr>content := ''hello''\<rparr>) (Some 5)],
                   messages := [example_row ''c'' 9\<lparr>content := ''hello''\<rparr>]\<rparr>)"
  by (simp add: postMessage_def example_body_plain_valid appendMessage_def createMessage_def
      validateConsistency_absent example_default_level insertMessage_def Let_def
      toTimestamp_def example_uuid_9 warning_field_def empty_store_def record_call_def rejects_def
      upsert_def example_row_def)
    (simp add: example_runtime_def)

text \<open>
  C5. An accepted request (the reply says \<^verbatim>\<open>ok: true\<close> and is not a deduplication) is
  answered with status 200 and the new message's \<^verbatim>\<open>message_id\<close>, with at most a
  \<^verbatim>\<open>warning\<close> beside it. The reply has no \<^verbatim>\<open>created_at\<close>: the timestamp, taken from
  the identifier, is only stored with the row.
\<close>

theorem accepted_reply_carries_id_only:
  assumes "postMessage rt e newId st reqBody = (r, st')" and "body r = JObj props"
      and "map_of props ''ok'' = Some (JBool True)" and "map_of props ''deduped'' = None"
  shows "status r = 200
       \<and> map_of props ''message_id'' = Some (JStr (uuid_toString rt newId))
       \<and> map_of props ''created_at'' = None
       \<and> dom (map_of props) \<subseteq> {''ok'', ''message_id'', ''warning''}
       \<and> (\<exists>x \<in> set (messages st'). message_id x = newId \<and> created_at x = getDate rt newId)"
proof -
  obtain d where v: "validatePostMessage reqBody = Inr (Valid d)"
    using assms
    by (auto simp: postMessage_def internal_def bad_request_def errorResponse_def
        split: sum.splits validation.splits)
  then have a: "appendMessage rt e newId st d = (r, st')"
    using assms(1) by (simp add: postMessage_def)
  let ?cr = "validateConsistency (consistencies rt) e (d_consistency d)"
  note acc = appendMessage_accepted[OF a assms(2-4)]
  from acc(1) assms(2) have p: "props = [(''ok'', JBool True),
      (''message_id'', JStr (uuid_toString rt newId))] @ warning_field ?cr" by simp
  have "dom (map_of props) \<subseteq> {''ok'', ''message_id'', ''warning''}"
    unfolding p by (auto simp: warning_field_def split: option.splits if_splits)
  moreover have "map_of props ''created_at'' = None"
    unfolding p by (simp add: warning_field_lookup)
  moreover have "map_of props ''message_id'' = Some (JStr (uuid_toString rt newId))"
    unfolding p by simp
  moreover have "status r = 200" using acc(1) by simp
  moreover have "\<exists>x \<in> set (messages st'). message_id x = newId \<and> created_at x = getDate rt newId"
    using acc(2) by force
  ultimately show ?thesis by blast
qed

theorem accepted_reply_carries_id_only_witness:
  "map_of [(''ok'', JBool True),
           (''message_id'', JStr ''00000009-0000-1000-8000-000000000000'')] ''ok'' = Some (JBool True)
   \<and> map_of [(''ok'', JBool True),
           (''message_id'', JStr ''00000009-0000-1000-8000-000000000000'')] ''message_id''
       = Some (JStr (uuid_toString example_runtime 9))
   \<and> map_of [(''ok'', JBool True),
           (''message_id'', JStr ''00000009-0000-1000-8000-000000000000'')] ''created_at'' = None"
  using accepted_reply_carries_id_only[OF example_accepted_post,
      of "[(''ok'', JBool True), (''message_id'', JStr ''00000009-0000-1000-8000-000000000000'')]"]
  by simp

text \<open>
  The accepted request of the example: the reply holds \<^verbatim>\<open>ok\<close> and \<^verbatim>\<open>message_id\<close>
  and nothing else.
\<close>

theorem accepted_reply_has_no_created_at:
  "postMessage example_runtime example_env 9 empty_store example_body
   = (\<lparr>status = 200,
       body = JObj [(''ok'', JBool True),
                    (''message_id'', JStr ''00000009-0000-1000-8000-000000000000'')]\<rparr>,
      empty_store\<lparr>executed := [InsertMessage (example_row ''c'' 9\<lparr>content := ''hello''\<rparr>) (Some 5)],
                   messages := [example_row ''c'' 9\<lparr>content := ''hello''\<rparr>]\<rparr>)
   \<and> map_of [(''ok'', JBool True),
              (''message_id'', JStr ''00000009-0000-1000-8000-000000000000'')] ''created_at'' = None"
  by (simp add: example_accepted_post)

lemma trim_whitespace: "list_all isWhitespace s \<Longrightarrow> trim s = []"
proof -
  assume "list_all isWhitespace s"
  then show ?thesis
    by (auto simp: trim_def list_all_iff dest: set_dropWhileD)
qed

lemma length_trim_le: "length (trim s) \<le> length s"
proof -
  have "length (dropWhile isWhitespace (rev (dropWhile isWhitespace s)))
          \<le> length (rev (dropWhile isWhitespace s))"
    by (rule length_dropWhile_le)
  also have "\<dots> \<le> length s" by (simp add: length_dropWhile_le)
  finally show ?thesis by (simp add: trim_def)
qed

lemma post_errors_Nil:
  assumes "reqBody ''channel_id'' = Some (JStr ch)" and "1 \<le> length ch" and "length ch \<le> 100"
      and "reqBody ''user_id'' = Some (JStr u)" and "1 \<le> length u" and "length u \<le> 100"
      and "reqBody ''content'' = Some (JStr c)" and "1 \<le> length c" and "length c \<le> 2000"
      and "opt_trim (reqBody ''client_msg_id'') = Inr key"
      and "js_length (reqBody ''client_msg_id'') \<le> 100"
  shows "post_errors reqBody = []"
proof -
  have "\<not> (truthy (reqBody ''client_msg_id'') \<and>
           (\<not> is_string (reqBody ''client_msg_id'') \<or> js_length (reqBody ''client_msg_id'') < 1
            \<or> js_length (reqBody ''client_msg_id'') > 100))"
    using assms(10,11) by (cases "reqBody ''client_msg_id''" rule: opt_trim.cases) auto
  moreover have "ch \<noteq> []" "u \<noteq> []" "c \<noteq> []" using assms(2,5,8) by auto
  ultimately show ?thesis
    using assms(1-9) by (simp add: post_errors_def)
qed

lemma validatePostMessage_Invalid:
  "m \<in> set (post_errors b) \<Longrightarrow>
   validatePostMessage b = Inr (Invalid (post_errors b))"
  by (auto simp: validatePostMessage_def Let_def)

lemma content_too_long_refused:
  assumes "b ''content'' = Some (JStr s)" and "2000 < length s"
  shows "''content must be between 1 and 2000 characters'' \<in> set (post_errors b)"
proof -
  have "s \<noteq> []" using assms(2) by auto
  with assms show ?thesis by (simp add: post_errors_def)
qed

lemma content_empty_refused:
  assumes "b ''content'' = Some (JStr [])"
  shows "''content is required and must be a string'' \<in> set (post_errors b)"
  using assms by (simp add: post_errors_def)

lemma channel_too_long_refused:
  assumes "b ''channel_id'' = Some (JStr s)" and "100 < length s"
  shows "''channel_id must be between 1 and 100 characters'' \<in> set (post_errors b)"
proof -
  have "s \<noteq> []" using assms(2) by auto
  with assms show ?thesis by (simp add: post_errors_def)
qed

lemma user_too_long_refused:
  assumes "b ''user_id'' = Some (JStr s)" and "100 < length s"
  shows "''user_id must be between 1 and 100 characters'' \<in> set (post_errors b)"
proof -
  have "s \<noteq> []" using assms(2) by auto
  with assms show ?thesis by (simp add: post_errors_def)
qed

lemma trim_padded:
  assumes "\<not> isWhitespace a" and "0 < n"
  shows "trim (replicate n a @ '' '') = replicate n a"
proof -
  have ws: "isWhitespace (CHR '' '')" by (simp add: isWhitespace_def)
  obtain m where n: "n = Suc m" using assms(2) by (cases n) auto
  have "dropWhile isWhitespace (replicate n a @ '' '') = replicate n a @ '' ''"
    using assms(1) n by simp
  moreover have "rev (replicate n a @ '' '') = CHR '' '' # replicate n a" by simp
  moreover have "dropWhile isWhitespace (CHR '' '' # replicate n a) = replicate n a"
    using assms(1) ws n by simp
  ultimately show ?thesis by (simp add: trim_def)
qed

lemma padded_content_refused:
  "validatePostMessage (example_body(''content'' \<mapsto> JStr (replicate 2000 (CHR ''a'') @ '' '')))
     = Inr (Invalid [''content must be between 1 and 2000 characters''])"
  by (simp add: validatePostMessage_def post_errors_def example_body_def)

lemma padded_content_fits:
  "length (trim (replicate 2000 (CHR ''a'') @ '' '')) = 2000"
proof -
  have "\<not> isWhitespace (CHR ''a'')" by (simp add: isWhitespace_def)
  then have "trim (replicate 2000 (CHR ''a'') @ '' '') = replicate 2000 (CHR ''a'')"
    by (rule trim_padded) simp
  then show ?thesis by simp
qed

text \<open>
  C9. \<open>validatePostMessage\<close> checks the lengths of the fields as they arrive and
  returns the trimmed strings: with the other fields valid, any content of 1 to 2000
  code units passes, the handler goes on with the trimmed content, and for a content
  of white space only that is the empty string. The bounds are checked, and on the
  untrimmed value: a content longer than 2000 or empty, and a channel or user id longer
  than 100, is refused with the field's message, and the handler answers
  \<^verbatim>\<open>BAD_REQUEST\<close> with the store untouched; 2000 letters followed by a space are
  refused although the trimmed value has 2000.
\<close>

theorem validatePostMessage_checks_then_trims:
  assumes "reqBody ''channel_id'' = Some (JStr ch)" and "1 \<le> length ch" and "length ch \<le> 100"
      and "reqBody ''user_id'' = Some (JStr u)" and "1 \<le> length u" and "length u \<le> 100"
      and "reqBody ''content'' = Some (JStr c)" and "1 \<le> length c" and "length c \<le> 2000"
      and "opt_trim (reqBody ''consistency'') = Inr cons"
      and "opt_trim (reqBody ''client_msg_id'') = Inr key"
      and "js_length (reqBody ''client_msg_id'') \<le> 100"
  shows "validatePostMessage reqBody
           = Inr (Valid \<lparr>d_channel_id = trim ch, d_user_id = trim u, d_content = trim c,
                          d_consistency = cons, d_client_msg_id = key\<rparr>)
       \<and> postMessage rt e newId st reqBody
           = appendMessage rt e newId st
               \<lparr>d_channel_id = trim ch, d_user_id = trim u, d_content = trim c,
                d_consistency = cons, d_client_msg_id = key\<rparr>
       \<and> (list_all isWhitespace c \<longrightarrow> trim c = [] \<and> length (trim c) < 1)
       \<and> (\<forall>b s. b ''content'' = Some (JStr s) \<and> 2000 < length s \<longrightarrow>
             validatePostMessage b = Inr (Invalid (post_errors b))
             \<and> ''content must be between 1 and 2000 characters'' \<in> set (post_errors b)
             \<and> postMessage rt e newId st b
                 = (bad_request e ''Invalid input'' (Some (post_errors b)), st))
       \<and> (\<forall>b. b ''content'' = Some (JStr []) \<longrightarrow>
             validatePostMessage b = Inr (Invalid (post_errors b))
             \<and> ''content is required and must be a string'' \<in> set (post_errors b))
       \<and> (\<forall>b s. b ''channel_id'' = Some (JStr s) \<and> 100 < length s \<longrightarrow>
             validatePostMessage b = Inr (Invalid (post_errors b))
             \<and> ''channel_id must be between 1 and 100 characters'' \<in> set (post_errors b))
       \<and> (\<forall>b s. b ''user_id'' = Some (JStr s) \<and> 100 < length s \<longrightarrow>
             validatePostMessage b = Inr (Invalid (post_errors b))
             \<and> ''user_id must be between 1 and 100 characters'' \<in> set (post_errors b))
       \<and> validatePostMessage
             (example_body(''content'' \<mapsto> JStr (replicate 2000 (CHR ''a'') @ '' '')))
           = Inr (Invalid [''content must be between 1 and 2000 characters''])
       \<and> length (trim (replicate 2000 (CHR ''a'') @ '' '')) = 2000"
proof -
  have "post_errors reqBody = []"
    using assms(1-9,11,12) by (rule post_errors_Nil)
  then have v: "validatePostMessage reqBody
           = Inr (Valid \<lparr>d_channel_id = trim ch, d_user_id = trim u, d_content = trim c,
                          d_consistency = cons, d_client_msg_id = key\<rparr>)"
    using assms(1,4,7,10,11) by (simp add: validatePostMessage_def bind_err_def)
  then have p: "postMessage rt e newId st reqBody
           = appendMessage rt e newId st
               \<lparr>d_channel_id = trim ch, d_user_id = trim u, d_content = trim c,
                d_consistency = cons, d_client_msg_id = key\<rparr>"
    by (simp add: postMessage_def)
  have w: "list_all isWhitespace c \<longrightarrow> trim c = [] \<and> length (trim c) < 1"
    by (simp add: trim_whitespace)
  have long: "\<forall>b s. b ''content'' = Some (JStr s) \<and> 2000 < length s \<longrightarrow>
             validatePostMessage b = Inr (Invalid (post_errors b))
             \<and> ''content must be between 1 and 2000 characters'' \<in> set (post_errors b)
             \<and> postMessage rt e newId st b
                 = (bad_request e ''Invalid input'' (Some (post_errors b)), st)"
  proof (intro allI impI)
    fix b s assume h: "b ''content'' = Some (JStr s) \<and> 2000 < length s"
    then have m: "''content must be between 1 and 2000 characters'' \<in> set (post_errors b)"
      by (auto intro: content_too_long_refused)
    from validatePostMessage_Invalid[OF m] m
    show "validatePostMessage b = Inr (Invalid (post_errors b))
             \<and> ''content must be between 1 and 2000 characters'' \<in> set (post_errors b)
             \<and> postMessage rt e newId st b
                 = (bad_request e ''Invalid input'' (Some (post_errors b)), st)"
      by (simp add: postMessage_def)
  qed
  have empty: "\<forall>b. b ''content'' = Some (JStr []) \<longrightarrow>
             validatePostMessage b = Inr (Invalid (post_errors b))
             \<and> ''content is required and must be a string'' \<in> set (post_errors b)"
    using validatePostMessage_Invalid content_empty_refused by blast
  have chan: "\<forall>b s. b ''channel_id'' = Some (JStr s) \<and> 100 < length s \<longrightarrow>
             validatePostMessage b = Inr (Invalid (post_errors b))
             \<and> ''channel_id must be between 1 and 100 characters'' \<in> set (post_errors b)"
    using validatePostMessage_Invalid channel_too_long_refused by blast
  have user: "\<forall>b s. b ''user_id'' = Some (JStr s) \<and> 100 < length s \<longrightarrow>
             validatePostMessage b = Inr (Invalid (post_errors b))
             \<and> ''user_id must be between 1 and 100 characters'' \<in> set (post_errors b)"
    using validatePostMessage_Invalid user_too_long_refused by blast
  show ?thesis
    by (intro conjI v p w long empty chan user padded_content_refused padded_content_fits)
qed

theorem validatePostMessage_checks_then_trims_witness:
  "validatePostMessage (example_body(''content'' \<mapsto> JStr ''   ''))
     = Inr (Valid \<lparr>d_channel_id = ''c'', d_user_id = ''u'', d_content = [],
                    d_consistency = None, d_client_msg_id = None\<rparr>)
   \<and> postMessage example_runtime example_env 9 empty_store (example_body(''content'' \<mapsto> JStr ''   ''))
     = (\<lparr>status = 200,
         body = JObj [(''ok'', JBool True),
                      (''message_id'', JStr ''00000009-0000-1000-8000-000000000000'')]\<rparr>,
        empty_store\<lparr>executed := [InsertMessage (example_row ''c'' 9\<lparr>content := []\<rparr>) (Some 5)],
                     messages := [example_row ''c'' 9\<lparr>content := []\<rparr>]\<rparr>)
   \<and> validatePostMessage (example_body(''content'' \<mapsto> JStr []))
     = Inr (Invalid [''content is required and must be a string''])
   \<and> validatePostMessage
       (example_body(''content'' \<mapsto> JStr (replicate 2000 (CHR ''a'') @ '' '')))
     = Inr (Invalid [''content must be between 1 and 2000 characters''])"
proof -
  have em: "validatePostMessage (example_body(''content'' \<mapsto> JStr []))
     = Inr (Invalid [''content is required and must be a string''])"
    by (simp add: validatePostMessage_def post_errors_def example_body_def)
  have ws: "list_all isWhitespace ''   ''" by (simp add: isWhitespace_def)
  have tr: "trim ''c'' = ''c''" "trim ''u'' = ''u''" "trim ''   '' = []"
    by (simp_all add: trim_def isWhitespace_def)
  have ap: "appendMessage example_runtime example_env 9 empty_store
      \<lparr>d_channel_id = ''c'', d_user_id = ''u'', d_content = [],
       d_consistency = None, d_client_msg_id = None\<rparr>
     = (\<lparr>status = 200,
         body = JObj [(''ok'', JBool True),
                      (''message_id'', JStr ''00000009-0000-1000-8000-000000000000'')]\<rparr>,
        empty_store\<lparr>executed := [InsertMessage (example_row ''c'' 9\<lparr>content := []\<rparr>) (Some 5)],
                     messages := [example_row ''c'' 9\<lparr>content := []\<rparr>]\<rparr>)"
    by (simp add: appendMessage_def createMessage_def
      validateConsistency_absent example_default_level insertMessage_def Let_def
      toTimestamp_def warning_field_def empty_store_def record_call_def rejects_def
      upsert_def example_row_def)
    (simp add: example_runtime_def)
  from validatePostMessage_checks_then_trims[of "example_body(''content'' \<mapsto> JStr ''   '')"
      "''c''" "''u''" "''   ''" None None example_runtime example_env 9 empty_store]
  have "validatePostMessage (example_body(''content'' \<mapsto> JStr ''   ''))
     = Inr (Valid \<lparr>d_channel_id = ''c'', d_user_id = ''u'', d_content = [],
                    d_consistency = None, d_client_msg_id = None\<rparr>)
   \<and> postMessage example_runtime example_env 9 empty_store
         (example_body(''content'' \<mapsto> JStr ''   ''))
     = appendMessage example_runtime example_env 9 empty_store
         \<lparr>d_channel_id = ''c'', d_user_id = ''u'', d_content = [],
          d_consistency = None, d_client_msg_id = None\<rparr>"
    by (simp add: example_body_def ws tr)
  then show ?thesis by (simp only: ap em padded_content_refused)
qed

subsection \<open>GET /api/channels/:channel_id/messages\<close>

lemma parseInt_examples:
  "parseInt ''0'' = Some 0" "parseInt ''101'' = Some 101" "parseInt ''1'' = Some 1"
  "parseInt ''100'' = Some 100" "parseInt ''5.5'' = Some 5" "parseInt ''abc'' = None"
  by code_simp+

lemma get_errors_nonempty:
  assumes "limit_rejected (query_limit q) \<or> (truthy_str (q_before q) \<and> truthy_str (q_after q))
           \<or> regex_rejects (q_before q) \<or> regex_rejects (q_after q)"
  shows "get_errors q \<noteq> []"
  using assms by (auto simp: get_errors_def)

lemma example_read_level:
  "validateConsistency (consistencies example_runtime) example_env
     (js_or None (DEFAULT_READ_CONSISTENCY example_env)) = \<lparr>level = Some 1, warning = None\<rparr>"
  by (simp add: js_or_def example_env_def validateConsistency_def Let_def
      ALLOWED_CONSISTENCIES_def case_defs example_runtime_def driver_consistencies_def)

lemma example_list_empty:
  "listMessages example_runtime example_env empty_store ''c''
     \<lparr>g_limit = n, g_before = None, g_after = None, g_consistency = None\<rparr>
   = (\<lparr>status = 200,
       body = JObj [(''ok'', JBool True), (''items'', JArr []),
                    (''page'', JObj [(''next_before'', JNull)])]\<rparr>,
      empty_store\<lparr>executed := [SelectMessages ''c'' NoCursor n (Some 1)]\<rparr>)"
  by (simp add: listMessages_def example_read_level getMessages_def get_cursor_def
      empty_store_def record_call_def rejects_def select_messages_def desc_def
      next_before_json_def warning_field_def)

text \<open>
  C8. A request is answered \<^verbatim>\<open>BAD_REQUEST\<close> with the store untouched and no statement
  executed when the channel id is empty or longer than 100, when the limit as
  \<^verbatim>\<open>parseInt\<close> reads it is \<^verbatim>\<open>NaN\<close> or outside 1..100, when \<^verbatim>\<open>before\<close> and
  \<^verbatim>\<open>after\<close> are both given, or when one of them does not match the UUID pattern.
  The limits \<^verbatim>\<open>0\<close> and \<^verbatim>\<open>101\<close> are rejected, \<^verbatim>\<open>1\<close> and \<^verbatim>\<open>100\<close> pass.
\<close>

theorem validation_errors_precede_storage:
  assumes "channelId = [] \<or> length channelId > 100 \<or> limit_rejected (query_limit q)
           \<or> (truthy_str (q_before q) \<and> truthy_str (q_after q))
           \<or> regex_rejects (q_before q) \<or> regex_rejects (q_after q)"
  shows "(\<exists>msg errs. getMessagesHandler rt e st channelId q = (bad_request e msg errs, st))
       \<and> executed (snd (getMessagesHandler rt e st channelId q)) = executed st
       \<and> limit_rejected (query_limit (example_query\<lparr>q_limit := Some ''0''\<rparr>))
       \<and> limit_rejected (query_limit (example_query\<lparr>q_limit := Some ''101''\<rparr>))
       \<and> validateGetMessages (example_query\<lparr>q_limit := Some ''1''\<rparr>)
           = Valid \<lparr>g_limit = 1, g_before = None, g_after = None, g_consistency = None\<rparr>
       \<and> validateGetMessages (example_query\<lparr>q_limit := Some ''100''\<rparr>)
           = Valid \<lparr>g_limit = 100, g_before = None, g_after = None, g_consistency = None\<rparr>"
proof -
  have h: "\<exists>msg errs. getMessagesHandler rt e st channelId q = (bad_request e msg errs, st)"
  proof (cases "channelId = [] \<or> length channelId > 100")
    case True
    then show ?thesis by (auto simp: getMessagesHandler_def)
  next
    case False
    with assms have "get_errors q \<noteq> []" by (intro get_errors_nonempty) blast
    then have "validateGetMessages q = Invalid (get_errors q)"
      by (simp add: validateGetMessages_def)
    with False show ?thesis by (auto simp: getMessagesHandler_def)
  qed
  then have "executed (snd (getMessagesHandler rt e st channelId q)) = executed st" by auto
  moreover have "limit_rejected (query_limit (example_query\<lparr>q_limit := Some ''0''\<rparr>))"
      "limit_rejected (query_limit (example_query\<lparr>q_limit := Some ''101''\<rparr>))"
    by (simp_all add: query_limit_def parseInt_examples limit_rejected_def)
  moreover have "validateGetMessages (example_query\<lparr>q_limit := Some ''1''\<rparr>)
           = Valid \<lparr>g_limit = 1, g_before = None, g_after = None, g_consistency = None\<rparr>"
      "validateGetMessages (example_query\<lparr>q_limit := Some ''100''\<rparr>)
           = Valid \<lparr>g_limit = 100, g_before = None, g_after = None, g_consistency = None\<rparr>"
    by (simp_all add: validateGetMessages_def get_errors_def query_limit_def parseInt_examples
        limit_rejected_def example_query_def)
  ultimately show ?thesis using h by blast
qed

theorem validation_errors_precede_storage_witness:
  "regex_rejects (Some ''invalid-uuid'')
   \<and> (\<exists>msg errs. getMessagesHandler example_runtime example_env example_store ''c''
          (example_query\<lparr>q_before := Some ''invalid-uuid''\<rparr>)
        = (bad_request example_env msg errs, example_store))
   \<and> executed (snd (getMessagesHandler example_runtime example_env example_store ''c''
          (example_query\<lparr>q_before := Some ''invalid-uuid''\<rparr>))) = []"
proof -
  have r: "regex_rejects (Some ''invalid-uuid'')" by (simp add: uuidRegex_def)
  from validation_errors_precede_storage[of "''c''" "example_query\<lparr>q_before := Some ''invalid-uuid''\<rparr>"
      example_runtime example_env example_store] r
  show ?thesis by (simp add: example_store_def empty_store_def)
qed

text \<open>
  The limit \<^verbatim>\<open>5.5\<close> is not an integer; \<^verbatim>\<open>parseInt\<close> reads it as 5, the request
  passes validation and the query is executed with \<^verbatim>\<open>LIMIT 5\<close>.
\<close>

theorem fractional_limit_reaches_storage:
  "getMessagesHandler example_runtime example_env empty_store ''c''
     (example_query\<lparr>q_limit := Some ''5.5''\<rparr>)
   = (\<lparr>status = 200,
       body = JObj [(''ok'', JBool True), (''items'', JArr []),
                    (''page'', JObj [(''next_before'', JNull)])]\<rparr>,
      empty_store\<lparr>executed := [SelectMessages ''c'' NoCursor 5 (Some 1)]\<rparr>)"
  by (simp add: getMessagesHandler_def validateGetMessages_def get_errors_def query_limit_def
      parseInt_examples limit_rejected_def example_query_def example_list_empty)

subsection \<open>Descending listings\<close>

lemma set_desc: "set (desc rows) = set rows"
  by (simp add: desc_def)

lemma length_desc: "length (desc rows) = length rows"
  by (simp add: desc_def)

lemma desc_sorted: "sorted_wrt (\<lambda>a b. message_id a \<ge> message_id b) (desc rows)"
proof -
  have "sorted (map message_id (sort_key message_id rows))" by simp
  then have "sorted_wrt (\<lambda>a b. message_id a \<le> message_id b) (sort_key message_id rows)"
    by (simp add: sorted_map)
  then show ?thesis by (simp add: desc_def sorted_wrt_rev)
qed

lemma desc_filter: "desc (filter P rows) = filter P (desc rows)"
  by (simp add: desc_def filter_sort rev_filter[symmetric])

lemma desc_distinct:
  "distinct (map message_id rows) \<Longrightarrow> distinct (map message_id (desc rows))"
  by (simp add: desc_def rev_map[symmetric] distinct_map)

lemma desc_strict:
  assumes "distinct (map message_id rows)"
  shows "sorted_wrt (\<lambda>a b. message_id a > message_id b) (desc rows)"
proof -
  have "sorted (map message_id (sort_key message_id rows))" by simp
  moreover have "distinct (map message_id (sort_key message_id rows))"
    using assms by (simp add: distinct_map)
  ultimately have "sorted_wrt (<) (map message_id (sort_key message_id rows))"
    by (simp add: strict_sorted_iff)
  then have "sorted_wrt (\<lambda>a b. message_id a < message_id b) (sort_key message_id rows)"
    by (simp add: sorted_wrt_map)
  then show ?thesis by (simp add: desc_def sorted_wrt_rev)
qed

lemma channel_distinct:
  assumes "distinct (map (\<lambda>r. (channel_id r, message_id r)) rows)"
  shows "distinct (map message_id (filter (\<lambda>r. channel_id r = c) rows))"
proof -
  have "distinct (map (\<lambda>r. (channel_id r, message_id r)) (filter (\<lambda>r. channel_id r = c) rows))"
    using assms by (rule distinct_map_filter)
  then show ?thesis
    by (auto simp: distinct_map inj_on_def)
qed

lemma filter_below_nth:
  fixes f :: "'a \<Rightarrow> 'b::linorder"
  assumes "sorted_wrt (\<lambda>a b. f a > f b) xs" and "i < length xs"
  shows "filter (\<lambda>r. f r < f (xs ! i)) xs = drop (Suc i) xs"
  using assms
proof (induction xs arbitrary: i)
  case Nil
  then show ?case by simp
next
  case (Cons a xs)
  show ?case
  proof (cases i)
    case 0
    have "\<forall>r \<in> set xs. f r < f a" using Cons.prems(1) by simp
    then have "filter (\<lambda>r. f r < f a) xs = xs" by simp
    with 0 show ?thesis by simp
  next
    case (Suc j)
    then have j: "j < length xs" using Cons.prems(2) by simp
    then have "xs ! j \<in> set xs" by simp
    then have "f (xs ! j) < f a" using Cons.prems(1) by simp
    moreover have "filter (\<lambda>r. f r < f (xs ! j)) xs = drop (Suc j) xs"
      using Cons.IH[OF _ j] Cons.prems(1) by simp
    ultimately show ?thesis using Suc by simp
  qed
qed

lemma select_NoCursor:
  "select_messages rows c NoCursor lim
   = take (nat lim) (desc (filter (\<lambda>r. channel_id r = c) rows))"
  by (simp add: select_messages_def)

lemma select_cursor:
  "select_messages rows c cur lim
   = take (nat lim) (filter (\<lambda>r. in_cursor cur (message_id r))
       (desc (filter (\<lambda>r. channel_id r = c) rows)))"
proof -
  have "filter (\<lambda>r. channel_id r = c \<and> in_cursor cur (message_id r)) rows
        = filter (\<lambda>r. in_cursor cur (message_id r)) (filter (\<lambda>r. channel_id r = c) rows)"
    by (simp add: conj_commute)
  then show ?thesis by (simp add: select_messages_def desc_filter)
qed

lemma sorted_wrt_take_drop:
  assumes "sorted_wrt P xs" and "x \<in> set (take n xs)" and "y \<in> set (drop n xs)"
  shows "P x y"
proof -
  have "sorted_wrt P (take n xs @ drop n xs)" using assms(1) by simp
  then show ?thesis using assms(2,3) unfolding sorted_wrt_append by blast
qed

lemma in_take_or_drop: "x \<in> set xs \<Longrightarrow> x \<in> set (take n xs) \<or> x \<in> set (drop n xs)"
proof -
  assume "x \<in> set xs"
  then have "x \<in> set (take n xs @ drop n xs)" by simp
  then show ?thesis by (simp only: set_append Un_iff)
qed

subsection \<open>Reading after a cursor\<close>

lemma getMessages_after:
  assumes "client st" and "\<not> rejects st" and "aft \<noteq> []" and "uuid_fromString rt aft = Some x"
  shows "getMessages rt st c lim None (Some aft) lvl
         = (Inr (select_messages (messages st) c (After x) lim),
            record_call (SelectMessages c (After x) lim
              (case lvl of None \<Rightarrow> consistencies rt ''one'' | Some l \<Rightarrow> Some l)) st)"
  using assms by (simp add: getMessages_def get_cursor_def Let_def record_call_def)

lemma example_uuid_1:
  "uuid_fromString example_runtime ''00000001-0000-1000-8000-000000000000'' = Some 1"
  by code_simp

lemma example_select_after:
  "select_messages (messages example_store) ''c'' (After 1) 2
   = [example_row ''c'' 5, example_row ''c'' 4]"
  by code_simp

lemma example_nearest_after:
  "nearest_after (messages example_store) ''c'' 1 2 = [example_row ''c'' 3, example_row ''c'' 2]"
  by code_simp

lemma example_store_ready: "client example_store" "\<not> rejects example_store"
  by (simp_all add: example_store_def empty_store_def rejects_def)

lemma example_getMessages_after:
  "fst (getMessages example_runtime example_store ''c'' 2 None
          (Some ''00000001-0000-1000-8000-000000000000'') None)
   = Inr [example_row ''c'' 5, example_row ''c'' 4]"
proof -
  have "fst (getMessages example_runtime example_store ''c'' 2 None
          (Some ''00000001-0000-1000-8000-000000000000'') None)
        = Inr (select_messages (messages example_store) ''c'' (After 1) 2)"
    by (subst getMessages_after[OF example_store_ready _ example_uuid_1]) simp_all
  then show ?thesis by (simp only: example_select_after)
qed

text \<open>
  C4. With \<^verbatim>\<open>after\<close> the read gives at most \<open>lim\<close> entries of the channel, all
  above the cursor, in descending order: the first \<open>lim\<close> of the descending listing
  of the entries above the cursor. They are the newest such entries: an entry above
  the cursor that is left out is not above any entry returned.
\<close>

theorem getMessages_after_newest:
  assumes "client st" and "\<not> rejects st" and "aft \<noteq> []" and "uuid_fromString rt aft = Some x"
  shows "\<exists>rows. fst (getMessages rt st c lim None (Some aft) lvl) = Inr rows
       \<and> rows = take (nat lim)
           (desc (filter (\<lambda>r. channel_id r = c \<and> message_id r > x) (messages st)))
       \<and> length rows \<le> nat lim
       \<and> (\<forall>r \<in> set rows. r \<in> set (messages st) \<and> channel_id r = c \<and> message_id r > x)
       \<and> sorted_wrt (\<lambda>a b. message_id a \<ge> message_id b) rows
       \<and> (\<forall>r \<in> set (messages st). channel_id r = c \<and> message_id r > x \<and> r \<notin> set rows
            \<longrightarrow> (\<forall>r' \<in> set rows. message_id r \<le> message_id r'))"
proof -
  let ?all = "desc (filter (\<lambda>r. channel_id r = c \<and> message_id r > x) (messages st))"
  let ?rows = "take (nat lim) ?all"
  have eq: "fst (getMessages rt st c lim None (Some aft) lvl) = Inr ?rows"
    using getMessages_after[OF assms] by (simp add: select_messages_def)
  have mem: "\<forall>r \<in> set ?rows. r \<in> set (messages st) \<and> channel_id r = c \<and> message_id r > x"
  proof
    fix r assume "r \<in> set ?rows"
    then have "r \<in> set ?all" by (rule in_set_takeD)
    then show "r \<in> set (messages st) \<and> channel_id r = c \<and> message_id r > x"
      by (simp add: set_desc)
  qed
  have srt: "sorted_wrt (\<lambda>a b. message_id a \<ge> message_id b) ?all" by (rule desc_sorted)
  then have srt': "sorted_wrt (\<lambda>a b. message_id a \<ge> message_id b) ?rows"
    by (rule sorted_wrt_take)
  have newest: "\<forall>r \<in> set (messages st). channel_id r = c \<and> message_id r > x \<and> r \<notin> set ?rows
            \<longrightarrow> (\<forall>r' \<in> set ?rows. message_id r \<le> message_id r')"
  proof (intro ballI impI)
    fix r r' assume r: "r \<in> set (messages st)"
      and h: "channel_id r = c \<and> message_id r > x \<and> r \<notin> set ?rows" and r': "r' \<in> set ?rows"
    from r h have "r \<in> set ?all" by (simp add: set_desc)
    with h have "r \<in> set (drop (nat lim) ?all)" using in_take_or_drop[of r ?all "nat lim"] by simp
    from sorted_wrt_take_drop[OF srt r' this] show "message_id r \<le> message_id r'" .
  qed
  have len: "length ?rows \<le> nat lim" by simp
  show ?thesis
    by (intro exI[of _ ?rows] conjI eq refl len mem srt' newest)
qed

theorem getMessages_after_newest_witness:
  "\<exists>rows. fst (getMessages example_runtime example_store ''c'' 2 None
          (Some ''00000001-0000-1000-8000-000000000000'') None) = Inr rows
     \<and> rows = [example_row ''c'' 5, example_row ''c'' 4]
     \<and> length rows \<le> 2"
  using getMessages_after_newest[OF example_store_ready _ example_uuid_1, of "''c''" 2 None]
  by (simp only: example_getMessages_after) simp

text \<open>
  With the ids 1 to 5 in the channel, the cursor 1 and the limit 2, the read gives the
  ids 5 and 4; the entries nearest to the cursor are 3 and 2.
\<close>

theorem getMessages_after_not_nearest:
  "fst (getMessages example_runtime example_store ''c'' 2 None
          (Some ''00000001-0000-1000-8000-000000000000'') None)
     = Inr [example_row ''c'' 5, example_row ''c'' 4]
   \<and> nearest_after (messages example_store) ''c'' 1 2
     = [example_row ''c'' 3, example_row ''c'' 2]
   \<and> message_id (example_row ''c'' 2) = 2 \<and> message_id (example_row ''c'' 5) = 5"
  by (simp only: example_getMessages_after example_nearest_after) (simp add: example_row_def)

subsection \<open>Pagination\<close>

lemma record_call_fields:
  "client (record_call q st) = client st" "fails (record_call q st) = fails st"
  "messages (record_call q st) = messages st"
  "message_dedupe (record_call q st) = message_dedupe st"
  "executed (record_call q st) = executed st @ [q]"
  by (simp_all add: record_call_def)

lemma next_before_json_rows:
  "next_before_json (map (message_json rt) rows)
   = (if rows = [] then JNull else JStr (uuid_toString rt (message_id (last rows))))"
  by (simp add: next_before_json_def last_map message_json_def)

lemma listMessages_page:
  assumes "client st" and "\<not> rejects st" and "get_cursor rt cur None = Inr cu"
  shows "\<exists>r q. listMessages rt e st c
            \<lparr>g_limit = L, g_before = cur, g_after = None, g_consistency = None\<rparr>
            = (r, record_call q st)
        \<and> response_items (body r)
            = map (message_json rt) (select_messages (messages st) c cu L)
        \<and> response_next_before (body r)
            = (if select_messages (messages st) c cu L = [] then None
               else Some (uuid_toString rt
                      (message_id (last (select_messages (messages st) c cu L)))))"
  using assms
  by (simp add: listMessages_def getMessages_def Let_def record_call_fields
      next_before_json_rows) blast

lemma drop_length_take:
  assumes "take l xs \<noteq> []"
  shows "drop (length (take l xs)) xs = drop l xs"
proof (cases "l \<le> length xs")
  case True
  then show ?thesis by (simp add: min_def)
next
  case False
  then show ?thesis by (simp add: min_def)
qed

lemma last_take_drop:
  assumes "take l (drop k xs) \<noteq> []"
  shows "last (take l (drop k xs)) = xs ! (k + length (take l (drop k xs)) - 1)"
proof -
  let ?rows = "take l (drop k xs)"
  have pos: "0 < length ?rows" using assms by simp
  have "last ?rows = ?rows ! (length ?rows - 1)" using assms by (rule last_conv_nth)
  also have "\<dots> = drop k xs ! (length ?rows - 1)"
  proof (rule nth_take)
    have "length ?rows \<le> l" by simp
    with pos show "length ?rows - 1 < l" by linarith
  qed
  also have "\<dots> = xs ! (k + (length ?rows - 1))"
  proof (rule nth_drop)
    have "length ?rows \<le> length xs - k" by simp
    with pos show "k \<le> length xs" by (cases "k \<le> length xs") auto
  qed
  also have "k + (length ?rows - 1) = k + length ?rows - 1" using pos by linarith
  finally show ?thesis .
qed

lemma select_at:
  fixes D :: "('id::linorder) row list"
  assumes D: "D = desc (filter (\<lambda>r. channel_id r = c) rows)"
      and strict: "sorted_wrt (\<lambda>a b. message_id a > message_id b) D"
      and k: "k \<le> length D"
  shows "select_messages rows c
           (if k = 0 then NoCursor else Before (message_id (D ! (k - 1)))) L
         = take (nat L) (drop k D)"
proof (cases "k = 0")
  case True
  then show ?thesis by (simp add: select_NoCursor D)
next
  case False
  then have "k - 1 < length D" using k by simp
  from filter_below_nth[OF strict this] False
  have "filter (\<lambda>r. message_id r < message_id (D ! (k - 1))) D = drop k D" by simp
  with False show ?thesis by (simp add: select_cursor D[symmetric])
qed

lemma cursor_at:
  assumes rt: "\<forall>r \<in> set D. uuid_fromString rt (uuid_toString rt (message_id r)) = Some (message_id r)
                 \<and> uuid_toString rt (message_id r) \<noteq> []"
      and k: "k \<le> length D"
  shows "get_cursor rt
           (if k = 0 then None else Some (uuid_toString rt (message_id (D ! (k - 1))))) None
         = Inr (if k = 0 then NoCursor else Before (message_id (D ! (k - 1))))"
proof (cases "k = 0")
  case True
  then show ?thesis by (simp add: get_cursor_def)
next
  case False
  then have "D ! (k - 1) \<in> set D" using k by simp
  with rt have "uuid_fromString rt (uuid_toString rt (message_id (D ! (k - 1))))
                  = Some (message_id (D ! (k - 1)))"
    and "uuid_toString rt (message_id (D ! (k - 1))) \<noteq> []" by auto
  with False show ?thesis by (simp add: get_cursor_def)
qed

text \<open>
  The loop from any point of the listing: \<open>k\<close> entries have been fetched, the cursor is
  the id of the last of them, and the pages still to come make up the rest.
\<close>

lemma paginate_from:
  fixes rt :: "('id::linorder) runtime"
  assumes "client st" and "\<forall>i. \<not> fails st i"
      and D: "D = desc (filter (\<lambda>r. channel_id r = c) (messages st))"
      and strict: "sorted_wrt (\<lambda>a b. message_id a > message_id b) D"
      and rt: "\<forall>r \<in> set D. uuid_fromString rt (uuid_toString rt (message_id r)) = Some (message_id r)
                 \<and> uuid_toString rt (message_id r) \<noteq> []"
      and L: "1 \<le> L"
      and k: "k \<le> length D"
      and fuel: "length D - k < n"
  shows "\<exists>pages. paginate n rt e st c L
            (if k = 0 then None else Some (uuid_toString rt (message_id (D ! (k - 1)))))
            = Some pages
         \<and> concat pages = map (message_json rt) (drop k D)
         \<and> list_all (\<lambda>p. length p \<le> nat L) pages"
  using assms(1,2) D k fuel
proof (induction n arbitrary: k st)
  case 0
  then show ?case by simp
next
  case (Suc n)
  let ?cur = "if k = 0 then None else Some (uuid_toString rt (message_id (D ! (k - 1))))"
  let ?cu = "if k = 0 then NoCursor else Before (message_id (D ! (k - 1)))"
  let ?rows = "take (nat L) (drop k D)"
  have rej: "\<not> rejects st" using Suc.prems(2) by (simp add: rejects_def)
  have sel: "select_messages (messages st) c ?cu L = ?rows"
    using select_at[OF Suc.prems(3) strict Suc.prems(4)] .
  from listMessages_page[OF Suc.prems(1) rej cursor_at[OF rt Suc.prems(4)], of e c L]
  obtain r q where lm: "listMessages rt e st c
            \<lparr>g_limit = L, g_before = ?cur, g_after = None, g_consistency = None\<rparr>
            = (r, record_call q st)"
    and items: "response_items (body r) = map (message_json rt) ?rows"
    and nb: "response_next_before (body r)
            = (if ?rows = [] then None else Some (uuid_toString rt (message_id (last ?rows))))"
    unfolding sel by blast
  have len: "length (map (message_json rt) ?rows) \<le> nat L" by simp
  show ?case
  proof (cases "?rows = []")
    case True
    with L have "drop k D = []" by (cases "drop k D") (auto simp: take_Cons')
    with True lm items nb len show ?thesis by simp
  next
    case False
    let ?k' = "k + length ?rows"
    have pos: "0 < length ?rows" using False by simp
    have k': "?k' \<le> length D" using Suc.prems(4) by simp
    have last: "last ?rows = D ! (?k' - 1)" using last_take_drop[OF False] .
    have "length ?rows \<le> length D - k" by simp
    then have fuel': "length D - ?k' < n" using Suc.prems(5) pos by linarith
    have st1: "client (record_call q st)" "\<forall>i. \<not> fails (record_call q st) i"
      "D = desc (filter (\<lambda>r. channel_id r = c) (messages (record_call q st)))"
      using Suc.prems(1-3) by (simp_all add: record_call_fields)
    have k'0: "?k' \<noteq> 0" using pos by linarith
    from Suc.IH[OF st1 k' fuel']
    obtain pages where p: "paginate n rt e (record_call q st) c L
          (Some (uuid_toString rt (message_id (D ! (?k' - 1))))) = Some pages"
      and cp: "concat pages = map (message_json rt) (drop ?k' D)"
      and lp: "list_all (\<lambda>p. length p \<le> nat L) pages"
      unfolding if_not_P[OF k'0] by blast
    have "drop ?k' D = drop (length ?rows) (drop k D)"
      by (simp only: drop_drop add.commute)
    also have "\<dots> = drop (nat L) (drop k D)" using False by (rule drop_length_take)
    finally have d: "drop ?k' D = drop (nat L) (drop k D)" .
    have "map (message_json rt) ?rows @ concat pages
            = map (message_json rt) (?rows @ drop (nat L) (drop k D))"
      unfolding cp d by (simp only: map_append)
    also have "?rows @ drop (nat L) (drop k D) = drop k D" by (rule append_take_drop_id)
    finally have "map (message_json rt) ?rows @ concat pages
            = map (message_json rt) (drop k D)" .
    with False lm items nb p lp len last show ?thesis by simp
  qed
qed

lemma pages_disjoint:
  assumes "distinct (concat xs)" and "i < j" and "j < length xs"
  shows "set (xs ! i) \<inter> set (xs ! j) = {}"
  using assms
proof (induction xs arbitrary: i j)
  case Nil
  then show ?case by simp
next
  case (Cons x xs)
  show ?case
  proof (cases i)
    case 0
    with Cons.prems obtain j' where j: "j = Suc j'" "j' < length xs" by (cases j) auto
    then have "xs ! j' \<in> set xs" by simp
    then have "set (xs ! j') \<subseteq> set (concat xs)" by auto
    with Cons.prems(1) 0 j show ?thesis by auto
  next
    case (Suc i')
    with Cons.prems obtain j' where j: "j = Suc j'" "i' < j'" "j' < length xs" by (cases j) auto
    with Cons.IH[of i' j'] Cons.prems(1) Suc show ?thesis by simp
  qed
qed

lemma item_message_id_json:
  "item_message_id (message_json rt r) = Some (JStr (uuid_toString rt (message_id r)))"
  by (simp add: message_json_def)

lemma distinct_item_ids:
  assumes "distinct (map message_id D)"
      and "\<forall>r \<in> set D. uuid_fromString rt (uuid_toString rt (message_id r)) = Some (message_id r)
                 \<and> uuid_toString rt (message_id r) \<noteq> []"
  shows "distinct (map item_message_id (map (message_json rt) D))"
proof -
  have "inj_on (\<lambda>r. Some (JStr (uuid_toString rt (message_id r)))) (set D)"
  proof (rule inj_onI)
    fix a b assume a: "a \<in> set D" and b: "b \<in> set D"
      and "Some (JStr (uuid_toString rt (message_id a))) = Some (JStr (uuid_toString rt (message_id b)))"
    then have "uuid_toString rt (message_id a) = uuid_toString rt (message_id b)" by simp
    then have "uuid_fromString rt (uuid_toString rt (message_id a))
                = uuid_fromString rt (uuid_toString rt (message_id b))" by simp
    with assms(2) a b have "message_id a = message_id b" by auto
    moreover have "inj_on message_id (set D)" using assms(1) by (simp add: distinct_map)
    ultimately show "a = b" using a b by (auto dest: inj_onD)
  qed
  moreover have "distinct D" using assms(1) by (simp add: distinct_map)
  ultimately have "distinct (map (\<lambda>r. Some (JStr (uuid_toString rt (message_id r)))) D)"
    by (simp add: distinct_map)
  then show ?thesis by (simp add: item_message_id_json comp_def)
qed

lemma example_store_keys:
  "distinct (map (\<lambda>r. (channel_id r, message_id r)) (messages example_store))"
  by code_simp

lemma example_store_roundtrip:
  "\<forall>r \<in> set (messages example_store).
     uuid_fromString example_runtime (uuid_toString example_runtime (message_id r))
       = Some (message_id r)
     \<and> uuid_toString example_runtime (message_id r) \<noteq> []"
  by code_simp

lemma example_store_count:
  "length (filter (\<lambda>r. channel_id r = ''c'') (messages example_store)) = 5"
  by code_simp

lemma example_pages:
  "paginate 6 example_runtime example_env example_store ''c'' 2 None
   = Some [[message_json example_runtime (example_row ''c'' 5),
            message_json example_runtime (example_row ''c'' 4)],
           [message_json example_runtime (example_row ''c'' 3),
            message_json example_runtime (example_row ''c'' 2)],
           [message_json example_runtime (example_row ''c'' 1)],
           []]"
  by code_simp

lemma example_store_up: "\<forall>i. \<not> fails example_store i"
  by (simp add: example_store_def empty_store_def)

text \<open>
  C2. On a store that answers every call, whose rows have distinct primary keys and
  whose identifiers survive the driver's printing and parsing, the loop with a limit of
  at least 1 ends (fuel above the number \<open>K\<close> of the channel's messages suffices). Its
  pages, put together in fetch order, are the \<open>K\<close> messages of the channel in strictly
  descending order of \<^verbatim>\<open>message_id\<close>; no id occurs twice, any two pages are disjoint,
  and no page is longer than the limit.
\<close>

theorem pagination_yields_whole_channel:
  fixes rt :: "('id::linorder) runtime"
  assumes "client st" and "\<forall>i. \<not> fails st i"
      and pk: "distinct (map (\<lambda>r. (channel_id r, message_id r)) (messages st))"
      and rt: "\<forall>r \<in> set (messages st).
                 uuid_fromString rt (uuid_toString rt (message_id r)) = Some (message_id r)
                 \<and> uuid_toString rt (message_id r) \<noteq> []"
      and L: "1 \<le> L"
      and fuel: "length (filter (\<lambda>r. channel_id r = c) (messages st)) < n"
  shows "\<exists>pages. paginate n rt e st c L None = Some pages
         \<and> concat pages
             = map (message_json rt) (desc (filter (\<lambda>r. channel_id r = c) (messages st)))
         \<and> length (concat pages) = length (filter (\<lambda>r. channel_id r = c) (messages st))
         \<and> sorted_wrt (\<lambda>a b. message_id a > message_id b)
             (desc (filter (\<lambda>r. channel_id r = c) (messages st)))
         \<and> distinct (map item_message_id (concat pages))
         \<and> (\<forall>i j. i < j \<and> j < length pages \<longrightarrow> set (pages ! i) \<inter> set (pages ! j) = {})
         \<and> list_all (\<lambda>p. length p \<le> nat L) pages"
proof -
  let ?D = "desc (filter (\<lambda>r. channel_id r = c) (messages st))"
  have dist: "distinct (map message_id (filter (\<lambda>r. channel_id r = c) (messages st)))"
    using pk by (rule channel_distinct)
  then have strict: "sorted_wrt (\<lambda>a b. message_id a > message_id b) ?D" by (rule desc_strict)
  have distD: "distinct (map message_id ?D)" using dist by (rule desc_distinct)
  have rtD: "\<forall>r \<in> set ?D. uuid_fromString rt (uuid_toString rt (message_id r)) = Some (message_id r)
                 \<and> uuid_toString rt (message_id r) \<noteq> []"
    using rt by (simp add: set_desc)
  have fuel': "length ?D - 0 < n" using fuel by (simp add: length_desc)
  from paginate_from[OF assms(1,2) refl strict rtD L _ fuel', of e]
  obtain pages where p: "paginate n rt e st c L None = Some pages"
    and cp: "concat pages = map (message_json rt) ?D"
    and lp: "list_all (\<lambda>p. length p \<le> nat L) pages"
    by auto
  have len: "length (concat pages) = length (filter (\<lambda>r. channel_id r = c) (messages st))"
    unfolding cp by (simp add: length_desc)
  have ids: "distinct (map item_message_id (concat pages))"
    unfolding cp using distD rtD by (rule distinct_item_ids)
  then have dc: "distinct (concat pages)" by (simp add: distinct_map)
  have disj: "\<forall>i j. i < j \<and> j < length pages \<longrightarrow> set (pages ! i) \<inter> set (pages ! j) = {}"
  proof (intro allI impI)
    fix i j assume "i < j \<and> j < length pages"
    then show "set (pages ! i) \<inter> set (pages ! j) = {}"
      using pages_disjoint[OF dc, of i j] by simp
  qed
  show ?thesis
    by (intro exI[of _ pages] conjI p cp len strict ids disj lp)
qed

theorem pagination_yields_whole_channel_witness:
  "\<exists>pages. paginate 6 example_runtime example_env example_store ''c'' 2 None = Some pages
     \<and> pages = [[message_json example_runtime (example_row ''c'' 5),
                  message_json example_runtime (example_row ''c'' 4)],
                 [message_json example_runtime (example_row ''c'' 3),
                  message_json example_runtime (example_row ''c'' 2)],
                 [message_json example_runtime (example_row ''c'' 1)],
                 []]
     \<and> length (concat pages) = 5
     \<and> distinct (map item_message_id (concat pages))"
  using pagination_yields_whole_channel[OF example_store_ready(1) example_store_up
      example_store_keys example_store_roundtrip, of 2 "''c''" 6 example_env]
  by (simp only: example_store_count example_pages) auto

end
